theory Spec2Isabelle
  imports Main
begin

section \<open>JavaScript strings and regular expressions\<close>

text \<open>
  The plugin is pattern-based: every rewrite it performs is a call of
  \<^verbatim>\<open>String.prototype.replace\<close> or \<^verbatim>\<open>RegExp.prototype.test\<close>. The embedding therefore
  starts with the fragment of ECMAScript regular expressions that the source uses and builds:
  a syntax tree, the parser behind \<^verbatim>\<open>new RegExp(str)\<close>, the backtracking matcher, and
  \<^verbatim>\<open>replace\<close>/\<^verbatim>\<open>test\<close> on top of it.

  A JavaScript string is modelled as a \<^typ>\<open>string\<close>: each \<^typ>\<open>char\<close> stands for the code
  unit with the same number (U+0000 to U+00FF).
\<close>

abbreviation (input) BSL :: char where "BSL \<equiv> CHR 0x5C"
abbreviation (input) LF :: char where "LF \<equiv> CHR 0x0A"
abbreviation (input) CR :: char where "CR \<equiv> CHR 0x0D"

datatype js_error =
    SyntaxError     \<comment> \<open>\<^verbatim>\<open>new RegExp\<close> rejects the pattern\<close>
  | Unsupported     \<comment> \<open>the pattern uses a construct outside the modelled fragment\<close>
  | ENOENT          \<comment> \<open>\<^verbatim>\<open>fs.readFileSync\<close> on a missing file\<close>
  | ConfigError     \<comment> \<open>the \<^verbatim>\<open>throw new Error(...)\<close> of \<^verbatim>\<open>gatherChunks\<close>\<close>
  | Rejected        \<comment> \<open>a rejected promise of a collaborator\<close>

subsection \<open>Character classes\<close>

datatype cesc = Digit | Space | Word

datatype citem =
    CChar char
  | CRange char char
  | CEsc cesc         \<comment> \<open>\<^verbatim>\<open>\d \s \w\<close>\<close>
  | CNotEsc cesc      \<comment> \<open>\<^verbatim>\<open>\D \S \W\<close>\<close>

definition is_digit :: "char \<Rightarrow> bool" where
  "is_digit c = (c \<in> set ''0123456789'')"

definition is_space :: "char \<Rightarrow> bool" where
  \<comment> \<open>WhiteSpace and LineTerminator below U+0100: TAB LF VT FF CR SP NBSP\<close>
  "is_space c = (c \<in> set [CHR 0x09, CHR 0x0A, CHR 0x0B, CHR 0x0C, CHR 0x0D, CHR 0x20, CHR 0xA0])"

definition is_word :: "char \<Rightarrow> bool" where
  "is_word c = (c \<in> set ''abcdefghijklmnopqrstuvwxyzABCDEFGHIJKLMNOPQRSTUVWXYZ0123456789_'')"

definition is_line_terminator :: "char \<Rightarrow> bool" where
  "is_line_terminator c = (c = LF \<or> c = CR)"

fun cesc_matches :: "cesc \<Rightarrow> char \<Rightarrow> bool" where
  "cesc_matches Digit c = is_digit c"
| "cesc_matches Space c = is_space c"
| "cesc_matches Word c = is_word c"

fun citem_matches :: "citem \<Rightarrow> char \<Rightarrow> bool" where
  "citem_matches (CChar d) c = (c = d)"
| "citem_matches (CRange lo hi) c =
     ((of_char lo :: nat) \<le> of_char c \<and> (of_char c :: nat) \<le> of_char hi)"
| "citem_matches (CEsc e) c = cesc_matches e c"
| "citem_matches (CNotEsc e) c = (\<not> cesc_matches e c)"

definition class_matches :: "bool \<Rightarrow> citem list \<Rightarrow> char \<Rightarrow> bool" where
  \<comment> \<open>the flag is the leading \<^verbatim>\<open>^\<close> of the class\<close>
  "class_matches neg items c = (list_ex (\<lambda>i. citem_matches i c) items \<noteq> neg)"

subsection \<open>Syntax trees\<close>

datatype regex =
    Emp
  | Chr char
  | Dot
  | Cls bool "citem list"
  | Seq regex regex
  | Alt regex regex
  | Grp nat regex                      \<comment> \<open>capturing group with its index\<close>
  | Rep regex nat "nat option" bool    \<comment> \<open>atom, min, max (None is unbounded), greedy\<close>

fun rsize :: "regex \<Rightarrow> nat" where
  "rsize (Seq a b) = Suc (rsize a + rsize b)"
| "rsize (Alt a b) = Suc (rsize a + rsize b)"
| "rsize (Grp i r) = Suc (rsize r)"
| "rsize (Rep r mn mx g) = Suc (rsize r + mn)"
| "rsize _ = 0"

fun groups :: "regex \<Rightarrow> nat list" where
  "groups (Seq a b) = groups a @ groups b"
| "groups (Alt a b) = groups a @ groups b"
| "groups (Grp i r) = i # groups r"
| "groups (Rep r mn mx g) = groups r"
| "groups _ = []"

subsection \<open>The backtracking matcher\<close>

text \<open>
  A matcher state is the captures made so far and the input still to be read. \<open>rmatch r st\<close>
  lists every way \<open>r\<close> can match at the front of the input, in the order in which the
  backtracking matcher of the language specification tries them; its head is the match that
  \<^verbatim>\<open>exec\<close> reports. The \<open>Rep\<close> equations are RepeatMatcher: the captures of the atom are
  cleared before each iteration, an iteration that reads nothing is rejected once the minimum
  is met, and a greedy quantifier tries one more iteration before it tries to stop.
\<close>

type_synonym captures = "(nat \<times> string) list"
type_synonym mstate = "captures \<times> string"

definition reset :: "nat list \<Rightarrow> captures \<Rightarrow> captures" where
  "reset gs cs = filter (\<lambda>(k, v). k \<notin> set gs) cs"

fun dec :: "nat option \<Rightarrow> nat option" where
  "dec None = None"
| "dec (Some k) = Some (k - 1)"

function rmatch :: "regex \<Rightarrow> mstate \<Rightarrow> mstate list" where
  "rmatch Emp st = [st]"
| "rmatch (Chr c) (cs, s) =
     (case s of [] \<Rightarrow> [] | x # xs \<Rightarrow> if x = c then [(cs, xs)] else [])"
| "rmatch Dot (cs, s) =
     (case s of [] \<Rightarrow> [] | x # xs \<Rightarrow> if is_line_terminator x then [] else [(cs, xs)])"
| "rmatch (Cls neg items) (cs, s) =
     (case s of [] \<Rightarrow> [] | x # xs \<Rightarrow> if class_matches neg items x then [(cs, xs)] else [])"
| "rmatch (Seq a b) st = concat (map (rmatch b) (rmatch a st))"
| "rmatch (Alt a b) st = rmatch a st @ rmatch b st"
| "rmatch (Grp i r) (cs, s) =
     map (\<lambda>(cs', s'). ((i, take (length s - length s') s) # cs', s')) (rmatch r (cs, s))"
| "rmatch (Rep r (Suc n) mx g) (cs, s) =
     (if mx = Some 0 then [(cs, s)]
      else concat (map (rmatch (Rep r n (dec mx) g)) (rmatch r (reset (groups r) cs, s))))"
| "rmatch (Rep r 0 mx g) (cs, s) =
     (if mx = Some 0 then [(cs, s)]
      else let more = concat (map (rmatch (Rep r 0 (dec mx) g))
                        (filter (\<lambda>(cs', s'). length s' < length s)
                           (rmatch r (reset (groups r) cs, s))))
           in if g then more @ [(cs, s)] else (cs, s) # more)"
  by pat_completeness auto
termination
  by (relation "measures [\<lambda>(r, st). rsize r, \<lambda>(r, st). length (snd st)]") auto

declare rmatch.simps(8,9) [simp del]

lemma rmatch_suffix: "(cs', s') \<in> set (rmatch r (cs, s)) \<Longrightarrow> \<exists>m. s = m @ s'"
proof (induction r "(cs, s)" arbitrary: cs s cs' s' rule: rmatch.induct)
  case (1 st)
  then show ?case by simp
next
  case (2 c cs s)
  then show ?case by (auto split: list.splits if_splits)
next
  case (3 cs s)
  then show ?case by (auto split: list.splits if_splits)
next
  case (4 neg items cs s)
  then show ?case by (auto split: list.splits if_splits)
next
  case (5 a b)
  from 5(3) obtain cs1 s1 where a: "(cs1, s1) \<in> set (rmatch a (cs, s))"
    and b: "(cs', s') \<in> set (rmatch b (cs1, s1))"
    by auto
  from 5(1)[OF a] obtain m1 where "s = m1 @ s1" by blast
  moreover from 5(2)[OF a b] obtain m2 where "s1 = m2 @ s'" by blast
  ultimately have "s = (m1 @ m2) @ s'" by simp
  then show ?case by blast
next
  case (6 a b)
  then show ?case by auto
next
  case (7 i r cs s)
  then show ?case by auto
next
  case (8 r n mx g cs s)
  note eq = rmatch.simps(8)[of r n mx g cs s]
  show ?case
  proof (cases "mx = Some 0")
    case True
    with 8(3)[unfolded eq] show ?thesis by simp
  next
    case False
    with 8(3)[unfolded eq] obtain cs1 s1
      where a: "(cs1, s1) \<in> set (rmatch r (reset (groups r) cs, s))"
        and b: "(cs', s') \<in> set (rmatch (Rep r n (dec mx) g) (cs1, s1))"
      by auto
    from 8(1)[OF False a] obtain m1 where "s = m1 @ s1" by blast
    moreover from 8(2)[OF False a b] obtain m2 where "s1 = m2 @ s'" by blast
    ultimately have "s = (m1 @ m2) @ s'" by simp
    then show ?thesis by blast
  qed
next
  case (9 r mx g cs s)
  note eq = rmatch.simps(9)[of r mx g cs s]
  show ?case
  proof (cases "mx = Some 0")
    case True
    with 9(3)[unfolded eq] show ?thesis by simp
  next
    case False
    show ?thesis
    proof (cases "(cs', s') = (cs, s)")
      case True
      then show ?thesis by simp
    next
      case ne: False
      from ne False 9(3)[unfolded eq] obtain cs1 s1
        where a: "(cs1, s1) \<in> set (rmatch r (reset (groups r) cs, s))"
          and lt: "length s1 < length s"
          and b: "(cs', s') \<in> set (rmatch (Rep r 0 (dec mx) g) (cs1, s1))"
        by (auto simp: Let_def split: if_splits)
      from 9(1)[OF False a] obtain m1 where "s = m1 @ s1" by blast
      moreover from a lt
      have "(cs1, s1) \<in> set (filter (\<lambda>(cs', s'). length s' < length s)
               (rmatch r (reset (groups r) cs, s)))"
        by simp
      from 9(2)[OF False this b] obtain m2 where "s1 = m2 @ s'" by blast
      ultimately have "s = (m1 @ m2) @ s'" by simp
      then show ?thesis by blast
    qed
  qed
qed

subsection \<open>\<^verbatim>\<open>exec\<close>, \<^verbatim>\<open>test\<close> and \<^verbatim>\<open>replace\<close>\<close>

text \<open>
  \<open>search r s\<close> is RegExpBuiltinExec from index 0: the match is tried at each index in turn.
  The result gives the text skipped before the match, the captures, the matched text and
  the text after it.
\<close>

type_synonym found = "string \<times> captures \<times> string \<times> string"

fun search :: "regex \<Rightarrow> string \<Rightarrow> found option" where
  "search r [] =
     (case rmatch r ([], []) of
        [] \<Rightarrow> None
      | (cs, s') # _ \<Rightarrow> Some ([], cs, [], []))"
| "search r (x # xs) =
     (case rmatch r ([], x # xs) of
        (cs, s') # _ \<Rightarrow> Some ([], cs, take (length (x # xs) - length s') (x # xs), s')
      | [] \<Rightarrow>
         (case search r xs of
            None \<Rightarrow> None
          | Some (sk, cs, m, rest) \<Rightarrow> Some (x # sk, cs, m, rest)))"

definition test :: "regex \<Rightarrow> string \<Rightarrow> bool" where
  \<comment> \<open>\<^verbatim>\<open>re.test(s)\<close> on a regular expression whose \<^verbatim>\<open>lastIndex\<close> is 0\<close>
  "test r s = (search r s \<noteq> None)"

definition test_g :: "regex \<Rightarrow> nat \<Rightarrow> string \<Rightarrow> bool \<times> nat" where
  \<comment> \<open>\<^verbatim>\<open>re.test(s)\<close> on a global regular expression: it starts at \<^verbatim>\<open>lastIndex\<close> and
      returns the new \<^verbatim>\<open>lastIndex\<close> with the answer\<close>
  "test_g r li s =
     (if length s < li then (False, 0)
      else case search r (drop li s) of
             None \<Rightarrow> (False, 0)
           | Some (sk, cs, m, rest) \<Rightarrow> (True, li + length sk + length m))"

text \<open>
  A replacer receives the matched text, the captures, the text before the match and the text
  after it, and returns what is put in place of the match.
\<close>

type_synonym replacer = "string \<Rightarrow> captures \<Rightarrow> string \<Rightarrow> string \<Rightarrow> string"

lemma search_split:
  "search r s = Some (sk, cs, m, rest) \<Longrightarrow> s = sk @ m @ rest"
proof (induction s arbitrary: sk)
  case Nil
  then show ?case by (auto split: list.splits)
next
  case (Cons x xs)
  show ?case
  proof (cases "rmatch r ([], x # xs)")
    case Nil
    with Cons.prems obtain sk' where sk: "sk = x # sk'"
      and s': "search r xs = Some (sk', cs, m, rest)"
      by (auto split: option.splits)
    from Cons.IH[OF s'] sk show ?thesis by simp
  next
    case (Cons st sts)
    obtain cs0 s0 where st: "st = (cs0, s0)" by (cases st)
    with Cons have "(cs0, s0) \<in> set (rmatch r ([], x # xs))" by simp
    from rmatch_suffix[OF this] obtain m0 where m0: "x # xs = m0 @ s0" by blast
    from Cons st Cons.prems
    have "sk = []" "rest = s0" "m = take (length (x # xs) - length s0) (x # xs)"
      by auto
    moreover from m0 have "take (length (x # xs) - length s0) (x # xs) = m0"
      by (simp only: m0) simp
    ultimately show ?thesis using m0 by simp
  qed
qed

text \<open>
  \<^verbatim>\<open>s.replace(re, f)\<close> for a global \<open>re\<close>: every match is replaced, the scan resumes
  where the last match ended, and after an empty match it moves one code unit on.
\<close>

function replace_g :: "regex \<Rightarrow> replacer \<Rightarrow> string \<Rightarrow> string \<Rightarrow> string" where
  "replace_g r f pre s =
     (case search r s of
        None \<Rightarrow> s
      | Some (sk, cs, m, rest) \<Rightarrow>
          sk @ f m cs (pre @ sk) rest @
          (if m = [] then
             (case rest of
                [] \<Rightarrow> []
              | x # xs \<Rightarrow> x # replace_g r f (pre @ sk @ [x]) xs)
           else replace_g r f (pre @ sk @ m) rest))"
  by pat_completeness auto
termination
proof (relation "measure (\<lambda>(r, f, pre, s). length s)")
  show "wf (measure (\<lambda>(r, f, pre, s). length s))" by simp
next
  fix r :: regex and f :: replacer and pre s :: string and x2 sk y cs ya m rest x xs
  assume "search r s = Some x2" "(sk, y) = x2" "(cs, ya) = y" "(m, rest) = ya"
    "m = []" "rest = x # xs"
  then have "search r s = Some (sk, cs, [], x # xs)" by simp
  from search_split[OF this]
  show "((r, f, pre @ sk @ [x], xs), (r, f, pre, s)) \<in> measure (\<lambda>(r, f, pre, s). length s)"
    by simp
next
  fix r :: regex and f :: replacer and pre s :: string and x2 sk y cs ya m rest
  assume "search r s = Some x2" "(sk, y) = x2" "(cs, ya) = y" "(m, rest) = ya" "m \<noteq> []"
  then have "search r s = Some (sk, cs, m, rest)" by simp
  from search_split[OF this] \<open>m \<noteq> []\<close>
  show "((r, f, pre @ sk @ m, rest), (r, f, pre, s)) \<in> measure (\<lambda>(r, f, pre, s). length s)"
    by simp
qed

declare replace_g.simps [simp del]

definition replace_1 :: "regex \<Rightarrow> replacer \<Rightarrow> string \<Rightarrow> string" where
  \<comment> \<open>\<^verbatim>\<open>s.replace(re, f)\<close> for a \<open>re\<close> without the global flag: the first match only\<close>
  "replace_1 r f s =
     (case search r s of
        None \<Rightarrow> s
      | Some (sk, cs, m, rest) \<Rightarrow> sk @ f m cs sk rest @ rest)"

subsection \<open>\<^verbatim>\<open>new RegExp(str)\<close>: the pattern parser\<close>

text \<open>
  The parser reads the pattern left to right. Its state is the stack of enclosing groups,
  the alternatives already closed in the current group, the terms of the current
  alternative (latest first), whether the latest term may take a quantifier, the number
  of capturing groups opened so far, and the character class being read, if any.
  Outside the fragment (assertions, back references, braced quantifiers, hexadecimal and
  control escapes) it answers \<open>Unsupported\<close>.
\<close>

datatype frame = Frame "nat option" "regex list" "regex list"

type_synonym pstate =
  "frame list \<times> regex list \<times> regex list \<times> bool \<times> nat \<times> (bool \<times> citem list) option"

definition seq_of :: "regex list \<Rightarrow> regex" where
  "seq_of ts = foldr Seq ts Emp"

fun alt_of :: "regex list \<Rightarrow> regex" where
  "alt_of [] = Emp"
| "alt_of [a] = a"
| "alt_of (a # as) = Alt a (alt_of as)"

definition finish :: "regex list \<Rightarrow> regex list \<Rightarrow> regex" where
  "finish alts terms = alt_of (alts @ [seq_of (rev terms)])"

definition atom_escape :: "char \<Rightarrow> js_error + regex" where
  "atom_escape e =
     (if e = CHR ''d'' then Inr (Cls False [CEsc Digit])
      else if e = CHR ''D'' then Inr (Cls False [CNotEsc Digit])
      else if e = CHR ''s'' then Inr (Cls False [CEsc Space])
      else if e = CHR ''S'' then Inr (Cls False [CNotEsc Space])
      else if e = CHR ''w'' then Inr (Cls False [CEsc Word])
      else if e = CHR ''W'' then Inr (Cls False [CNotEsc Word])
      else if e = CHR ''f'' then Inr (Chr (CHR 0x0C))
      else if e = CHR ''n'' then Inr (Chr LF)
      else if e = CHR ''r'' then Inr (Chr CR)
      else if e = CHR ''t'' then Inr (Chr (CHR 0x09))
      else if e = CHR ''v'' then Inr (Chr (CHR 0x0B))
      else if e \<in> set ''bBcxu0123456789'' then Inl Unsupported
      else Inr (Chr e))"

definition class_escape :: "char \<Rightarrow> js_error + citem" where
  "class_escape e =
     (if e = CHR ''d'' then Inr (CEsc Digit)
      else if e = CHR ''D'' then Inr (CNotEsc Digit)
      else if e = CHR ''s'' then Inr (CEsc Space)
      else if e = CHR ''S'' then Inr (CNotEsc Space)
      else if e = CHR ''w'' then Inr (CEsc Word)
      else if e = CHR ''W'' then Inr (CNotEsc Word)
      else if e = CHR ''b'' then Inr (CChar (CHR 0x08))
      else if e = CHR ''f'' then Inr (CChar (CHR 0x0C))
      else if e = CHR ''n'' then Inr (CChar LF)
      else if e = CHR ''r'' then Inr (CChar CR)
      else if e = CHR ''t'' then Inr (CChar (CHR 0x09))
      else if e = CHR ''v'' then Inr (CChar (CHR 0x0B))
      else if e \<in> set ''cxu0123456789'' then Inl Unsupported
      else Inr (CChar e))"

definition braced :: "string \<Rightarrow> bool" where
  \<comment> \<open>the text after a \<^verbatim>\<open>{\<close> completes a quantifier \<^verbatim>\<open>{n}\<close>, \<^verbatim>\<open>{n,}\<close> or \<^verbatim>\<open>{n,m}\<close>\<close>
  "braced s =
     (takeWhile is_digit s \<noteq> [] \<and>
      (case dropWhile is_digit s of
         [] \<Rightarrow> False
       | c # t \<Rightarrow>
           if c = CHR ''}'' then True
           else if c = CHR '','' then
             (case dropWhile is_digit t of [] \<Rightarrow> False | d # u \<Rightarrow> d = CHR ''}'')
           else False))"

definition add_atom :: "regex \<Rightarrow> pstate \<Rightarrow> pstate" where
  "add_atom a st =
     (case st of (stk, alts, terms, q, n, cls) \<Rightarrow> (stk, alts, a # terms, True, n, None))"

definition quantify :: "nat \<Rightarrow> nat option \<Rightarrow> bool \<Rightarrow> pstate \<Rightarrow> js_error + pstate" where
  \<comment> \<open>a quantifier with nothing before it, or after another quantifier, is a syntax error\<close>
  "quantify mn mx greedy st =
     (case st of (stk, alts, terms, q, n, cls) \<Rightarrow>
        (case terms of
           [] \<Rightarrow> Inl SyntaxError
         | t # ts \<Rightarrow>
             if q then Inr (stk, alts, Rep t mn mx greedy # ts, False, n, cls)
             else Inl SyntaxError))"

text \<open>
  One step reads the character \<open>c\<close>, looking at the text \<open>rest\<close> after it, and says how many
  characters of \<open>rest\<close> it has read as well.
\<close>

definition step_atom :: "char \<Rightarrow> string \<Rightarrow> pstate \<Rightarrow> js_error + (pstate \<times> nat)" where
  "step_atom c rest st =
     (case st of (stk, alts, terms, q, n, cls) \<Rightarrow>
      if c = CHR ''('' then
        (case rest of
           [] \<Rightarrow> Inr ((Frame (Some (Suc n)) alts terms # stk, [], [], False, Suc n, None), 0)
         | d # rest2 \<Rightarrow>
             if d = CHR ''?'' then
               (case rest2 of
                  [] \<Rightarrow> Inl SyntaxError
                | e # rest3 \<Rightarrow>
                    if e = CHR '':'' then Inr ((Frame None alts terms # stk, [], [], False, n, None), 2)
                    else if e \<in> set ''=!<'' then Inl Unsupported
                    else Inl SyntaxError)
             else Inr ((Frame (Some (Suc n)) alts terms # stk, [], [], False, Suc n, None), 0))
      else if c = CHR '')'' then
        (case stk of
           [] \<Rightarrow> Inl SyntaxError
         | Frame k palts pterms # stk' \<Rightarrow>
             Inr ((stk', palts,
                   (case k of Some i \<Rightarrow> Grp i (finish alts terms) | None \<Rightarrow> finish alts terms)
                     # pterms,
                   True, n, None), 0))
      else if c = CHR ''|'' then Inr ((stk, alts @ [seq_of (rev terms)], [], False, n, None), 0)
      else if c = CHR ''*'' \<or> c = CHR ''+'' \<or> c = CHR ''?'' then
        (let mn = (if c = CHR ''+'' then 1 else 0);
             mx = (if c = CHR ''?'' then Some 1 else None);
             lazy = (case rest of [] \<Rightarrow> False | d # rest2 \<Rightarrow> d = CHR ''?'')
         in case quantify mn mx (\<not> lazy) st of
              Inl e \<Rightarrow> Inl e
            | Inr st' \<Rightarrow> Inr (st', if lazy then 1 else 0))
      else if c = CHR ''{'' then
        (if braced rest then Inl Unsupported else Inr (add_atom (Chr c) st, 0))
      else if c = CHR ''['' then
        (case rest of
           [] \<Rightarrow> Inl SyntaxError
         | d # rest2 \<Rightarrow>
             if d = CHR ''^'' then Inr ((stk, alts, terms, q, n, Some (True, [])), 1)
             else Inr ((stk, alts, terms, q, n, Some (False, [])), 0))
      else if c = BSL then
        (case rest of
           [] \<Rightarrow> Inl SyntaxError
         | e # rest2 \<Rightarrow>
             (case atom_escape e of
                Inl err \<Rightarrow> Inl err
              | Inr a \<Rightarrow> Inr (add_atom a st, 1)))
      else if c = CHR ''.'' then Inr (add_atom Dot st, 0)
      else if c = CHR ''^'' \<or> c = CHR ''$'' then Inl Unsupported
      else Inr (add_atom (Chr c) st, 0))"

definition range_follows :: "string \<Rightarrow> bool" where
  \<comment> \<open>a \<^verbatim>\<open>-\<close> that is not the last character of the class\<close>
  "range_follows rest =
     (case rest of
        d1 # d2 # rest3 \<Rightarrow> d1 = CHR ''-'' \<and> d2 \<noteq> CHR '']''
      | _ \<Rightarrow> False)"

definition step_class ::
  "bool \<Rightarrow> citem list \<Rightarrow> char \<Rightarrow> string \<Rightarrow> pstate \<Rightarrow> js_error + (pstate \<times> nat)" where
  "step_class neg items c rest st =
     (case st of (stk, alts, terms, q, n, cls) \<Rightarrow>
      if c = CHR '']'' then Inr (add_atom (Cls neg items) st, 0)
      else if c = BSL then
        (case rest of
           [] \<Rightarrow> Inl SyntaxError
         | e # rest2 \<Rightarrow>
             (case class_escape e of
                Inl err \<Rightarrow> Inl err
              | Inr item \<Rightarrow>
                  if range_follows rest2 then Inl Unsupported
                  else Inr ((stk, alts, terms, q, n, Some (neg, items @ [item])), 1)))
      else if range_follows rest then
        (let d2 = hd (tl rest)
         in if d2 = BSL then Inl Unsupported
            else if (of_char d2 :: nat) < of_char c then Inl SyntaxError
            else Inr ((stk, alts, terms, q, n, Some (neg, items @ [CRange c d2])), 2))
      else Inr ((stk, alts, terms, q, n, Some (neg, items @ [CChar c])), 0))"

definition step :: "char \<Rightarrow> string \<Rightarrow> pstate \<Rightarrow> js_error + (pstate \<times> nat)" where
  "step c rest st =
     (case st of (stk, alts, terms, q, n, cls) \<Rightarrow>
        (case cls of
           None \<Rightarrow> step_atom c rest st
         | Some (neg, items) \<Rightarrow> step_class neg items c rest st))"

function parse :: "string \<Rightarrow> pstate \<Rightarrow> js_error + (regex \<times> nat)" where
  "parse [] st =
     (case st of (stk, alts, terms, q, n, cls) \<Rightarrow>
        if stk = [] \<and> cls = None then Inr (finish alts terms, n) else Inl SyntaxError)"
| "parse (c # rest) st =
     (case step c rest st of
        Inl e \<Rightarrow> Inl e
      | Inr (st', k) \<Rightarrow> parse (drop k rest) st')"
  by pat_completeness auto
termination
  by (relation "measure (\<lambda>(s, st). length s)") auto

definition RegExp_new :: "string \<Rightarrow> js_error + (regex \<times> nat)" where
  \<comment> \<open>the syntax tree and the number of capturing groups\<close>
  "RegExp_new src = parse src ([], [], [], False, 0, None)"

subsection \<open>Replacement strings\<close>

text \<open>
  GetSubstitution: in a replacement given as a string, \<^verbatim>\<open>$$\<close> is a dollar sign, \<^verbatim>\<open>$&\<close> the
  matched text, \<^verbatim>\<open>$`\<close> and \<^verbatim>\<open>$'\<close> the text before and after the match, and \<^verbatim>\<open>$n\<close>,
  \<^verbatim>\<open>$nn\<close> the capture of that number (empty when the group did not take part). A number
  beyond the \<open>ng\<close> groups of the pattern is left as it stands.
\<close>

definition digit_val :: "char \<Rightarrow> nat" where
  "digit_val c = of_char c - 48"

definition capture :: "captures \<Rightarrow> nat \<Rightarrow> string" where
  "capture cs k = (case map_of cs k of None \<Rightarrow> [] | Some v \<Rightarrow> v)"

fun subst :: "nat \<Rightarrow> string \<Rightarrow> replacer" where
  "subst ng [] m cs bef aft = []"
| "subst ng [c] m cs bef aft = [c]"
| "subst ng (c # d # t) m cs bef aft =
     (if c \<noteq> CHR ''$'' then c # subst ng (d # t) m cs bef aft
      else if d = CHR ''$'' then CHR ''$'' # subst ng t m cs bef aft
      else if d = CHR ''&'' then m @ subst ng t m cs bef aft
      else if d = CHR 0x60 then bef @ subst ng t m cs bef aft
      else if d = CHR 0x27 then aft @ subst ng t m cs bef aft
      else if is_digit d then
        (case t of
           [] \<Rightarrow>
             if 1 \<le> digit_val d \<and> digit_val d \<le> ng then capture cs (digit_val d)
             else [c, d]
         | e # u \<Rightarrow>
             if is_digit e \<and> 10 * digit_val d + digit_val e \<le> ng then
               (if 1 \<le> 10 * digit_val d + digit_val e
                then capture cs (10 * digit_val d + digit_val e) @ subst ng u m cs bef aft
                else c # d # e # subst ng u m cs bef aft)
             else if 1 \<le> digit_val d \<and> digit_val d \<le> ng
               then capture cs (digit_val d) @ subst ng t m cs bef aft
             else c # d # subst ng t m cs bef aft)
      else c # subst ng (d # t) m cs bef aft)"

subsection \<open>String helpers\<close>

fun split_on :: "char \<Rightarrow> string \<Rightarrow> string list" where
  \<comment> \<open>\<^verbatim>\<open>s.split(c)\<close> for a separator of one character\<close>
  "split_on c [] = [[]]"
| "split_on c (x # xs) =
     (if x = c then [] # split_on c xs
      else (case split_on c xs of [] \<Rightarrow> [[x]] | w # ws \<Rightarrow> (x # w) # ws))"

fun join :: "string \<Rightarrow> string list \<Rightarrow> string" where
  \<comment> \<open>\<^verbatim>\<open>parts.join(sep)\<close>\<close>
  "join sep [] = []"
| "join sep [x] = x"
| "join sep (x # y # ys) = x @ sep @ join sep (y # ys)"

fun starts_with :: "string \<Rightarrow> string \<Rightarrow> bool" where
  "starts_with s [] = True"
| "starts_with [] (p # ps) = False"
| "starts_with (x # xs) (p # ps) = (x = p \<and> starts_with xs ps)"

fun contains :: "string \<Rightarrow> string \<Rightarrow> bool" where
  \<comment> \<open>\<^verbatim>\<open>s.indexOf(sub) > -1\<close>\<close>
  "contains [] sub = (sub = [])"
| "contains (x # xs) sub = (starts_with (x # xs) sub \<or> contains xs sub)"

subsection \<open>JavaScript objects and \<^verbatim>\<open>JSON.stringify\<close>\<close>

text \<open>
  An object with string values is the list of its properties in enumeration order: the keys
  that are array indices first, in ascending order, then the other keys in the order in
  which they were created.
\<close>

type_synonym js_object = "(string \<times> string) list"

fun num_val :: "string \<Rightarrow> nat" where
  "num_val s = foldl (\<lambda>n c. 10 * n + digit_val c) 0 s"

definition is_index :: "string \<Rightarrow> bool" where
  \<comment> \<open>a canonical numeric string below \<open>2\<^sup>3\<^sup>2 - 1\<close>\<close>
  "is_index k =
     (k \<noteq> [] \<and> list_all is_digit k \<and> (hd k \<noteq> CHR ''0'' \<or> k = ''0'') \<and>
      length k \<le> 10 \<and> num_val k < 4294967295)"

fun obj_insert :: "string \<Rightarrow> string \<Rightarrow> js_object \<Rightarrow> js_object" where
  \<comment> \<open>a new property takes its place in the enumeration order\<close>
  "obj_insert k v [] = [(k, v)]"
| "obj_insert k v ((k', v') # ps) =
     (if is_index k \<and> (\<not> is_index k' \<or> num_val k < num_val k')
      then (k, v) # (k', v') # ps
      else (k', v') # obj_insert k v ps)"

definition obj_set :: "string \<Rightarrow> string \<Rightarrow> js_object \<Rightarrow> js_object" where
  \<comment> \<open>\<^verbatim>\<open>obj[k] = v\<close>\<close>
  "obj_set k v ob =
     (if k \<in> set (map fst ob) then map (\<lambda>(k', v'). if k' = k then (k', v) else (k', v')) ob
      else obj_insert k v ob)"

definition hex_digit :: "nat \<Rightarrow> char" where
  "hex_digit n = ''0123456789abcdef'' ! (n mod 16)"

definition json_char :: "char \<Rightarrow> string" where
  "json_char c =
     (if c = CHR 0x22 then [BSL, CHR 0x22]
      else if c = BSL then [BSL, BSL]
      else if c = CHR 0x08 then [BSL, CHR ''b'']
      else if c = CHR 0x09 then [BSL, CHR ''t'']
      else if c = LF then [BSL, CHR ''n'']
      else if c = CHR 0x0C then [BSL, CHR ''f'']
      else if c = CR then [BSL, CHR ''r'']
      else if (of_char c :: nat) < 32
        then [BSL, CHR ''u'', CHR ''0'', CHR ''0'', hex_digit (of_char c div 16), hex_digit (of_char c)]
      else [c])"

definition json_quote :: "string \<Rightarrow> string" where
  \<open>json_quote s = ''"'' @ concat (map json_char s) @ ''"''\<close>

definition JSON_stringify :: "js_object \<Rightarrow> string" where
  "JSON_stringify ob =
     ''{'' @ join '','' (map (\<lambda>(k, v). json_quote k @ '':'' @ json_quote v) ob) @ ''}''"

section \<open>The plugin\<close>

subsection \<open>Regular expression literals of the source\<close>

abbreviation r_opt :: "regex \<Rightarrow> regex" where "r_opt r \<equiv> Rep r 0 (Some 1) True"
abbreviation r_star :: "regex \<Rightarrow> regex" where "r_star r \<equiv> Rep r 0 None True"
abbreviation r_plus :: "regex \<Rightarrow> regex" where "r_plus r \<equiv> Rep r 1 None True"
abbreviation r_plus_lazy :: "regex \<Rightarrow> regex" where "r_plus_lazy r \<equiv> Rep r 1 None False"
abbreviation lit :: "string \<Rightarrow> regex list" where "lit s \<equiv> map Chr s"
abbreviation r_space :: regex where "r_space \<equiv> Cls False [CEsc Space]"
abbreviation r_digit :: regex where "r_digit \<equiv> Cls False [CEsc Digit]"

text \<open>
  Each literal is given as its syntax tree; the lemma after it checks the tree against the
  text of the literal.
\<close>

definition PUBLIC_PATH_MATCH :: regex where
  \<comment> \<open>\<^verbatim>\<open>/__webpack_require__\.p\s?=\s?([^;]+);/g\<close>\<close>
  "PUBLIC_PATH_MATCH =
     seq_of (lit ''__webpack_require__.p'' @
       [r_opt r_space, Chr CHR ''='', r_opt r_space,
        Grp 1 (seq_of [r_plus (Cls True [CChar CHR '';''])]), Chr CHR '';''])"

definition getScriptRegExp :: regex where
  \<comment> \<open>\<^verbatim>\<open>/__webpack_require__\.p\s?\+[^\[]+\[(\S+)][\s\S]+?\.js['"];?/g\<close>\<close>
  "getScriptRegExp =
     seq_of (lit ''__webpack_require__.p'' @
       [r_opt r_space, Chr CHR ''+'', r_plus (Cls True [CChar CHR ''['']), Chr CHR ''['',
        Grp 1 (seq_of [r_plus (Cls False [CNotEsc Space])]), Chr CHR '']'',
        r_plus_lazy (Cls False [CEsc Space, CNotEsc Space])] @ lit ''.js'' @
       [Cls False [CChar (CHR 0x27), CChar (CHR 0x22)], r_opt (Chr CHR '';'')])"

definition getScriptRegExp_module :: regex where
  \<comment> \<open>the variant of the separate module of patterns:
      \<^verbatim>\<open>/__webpack_require__\.p\s?\+[^[]+\[(\S+)][^\n]+?\.js['"];?/g\<close>\<close>
  "getScriptRegExp_module =
     seq_of (lit ''__webpack_require__.p'' @
       [r_opt r_space, Chr CHR ''+'', r_plus (Cls True [CChar CHR ''['']), Chr CHR ''['',
        Grp 1 (seq_of [r_plus (Cls False [CNotEsc Space])]), Chr CHR '']'',
        r_plus_lazy (Cls True [CChar LF])] @ lit ''.js'' @
       [Cls False [CChar (CHR 0x27), CChar (CHR 0x22)], r_opt (Chr CHR '';'')])"

definition getCssChunksRegExp :: regex where
  \<comment> \<open>\<^verbatim>\<open>/var\scssChunks\s*=\s*([^;\n]+);/\<close>\<close>
  "getCssChunksRegExp =
     seq_of (lit ''var'' @ [r_space] @ lit ''cssChunks'' @
       [r_star r_space, Chr CHR ''='', r_star r_space,
        Grp 1 (seq_of [r_plus (Cls True [CChar CHR '';'', CChar LF])]), Chr CHR '';''])"

definition getCssHrefRegExp :: regex where
  \<comment> \<open>\<^verbatim>\<open>/var\shref\s*=[^\n]+?chunkId[^\n;]+;/\<close>\<close>
  "getCssHrefRegExp =
     seq_of (lit ''var'' @ [r_space] @ lit ''href'' @
       [r_star r_space, Chr CHR ''='', r_plus_lazy (Cls True [CChar LF])] @ lit ''chunkId'' @
       [r_plus (Cls True [CChar LF, CChar CHR '';'']), Chr CHR '';''])"

definition hash_re :: regex where
  \<comment> \<open>\<^verbatim>\<open>/\[hash(:\d+)?]/\<close>\<close>
  "hash_re =
     seq_of (lit ''[hash'' @
       [r_opt (Grp 1 (seq_of [Chr CHR '':'', r_plus r_digit])), Chr CHR '']''])"

definition name_re :: regex where
  \<comment> \<open>\<^verbatim>\<open>/\[name]/g\<close>\<close>
  "name_re = seq_of (lit ''[name]'')"

definition id_re :: regex where
  \<comment> \<open>\<^verbatim>\<open>/\[id]/g\<close>\<close>
  "id_re = seq_of (lit ''[id]'')"

definition chunkhash_re :: regex where
  \<comment> \<open>\<^verbatim>\<open>/\[chunkhash(:\d+)?]/g\<close>\<close>
  "chunkhash_re =
     seq_of (lit ''[chunkhash'' @
       [r_opt (Grp 1 (seq_of [Chr CHR '':'', r_plus r_digit])), Chr CHR '']''])"

definition contenthash_re :: regex where
  \<comment> \<open>\<^verbatim>\<open>/\[contenthash(:\d+)?]/g\<close>\<close>
  "contenthash_re =
     seq_of (lit ''[contenthash'' @
       [r_opt (Grp 1 (seq_of [Chr CHR '':'', r_plus r_digit])), Chr CHR '']''])"

definition dot_re :: regex where
  \<comment> \<open>\<^verbatim>\<open>/\./\<close>\<close>
  "dot_re = seq_of [Chr CHR ''.'']"

definition dots_re :: regex where
  \<comment> \<open>\<^verbatim>\<open>/\.+/g\<close>\<close>
  "dots_re = seq_of [r_plus (Chr CHR ''.'')]"

lemmas parse_defs = RegExp_new_def step_def step_atom_def step_class_def add_atom_def quantify_def
  atom_escape_def class_escape_def range_follows_def braced_def finish_def seq_of_def

lemma PUBLIC_PATH_MATCH_source:
  \<open>RegExp_new (''__webpack_require__'' @ [BSL] @ ''.p'' @ [BSL] @ ''s?='' @ [BSL] @ ''s?([^;]+);'') = Inr (PUBLIC_PATH_MATCH, 1)\<close>
  by (simp add: parse_defs PUBLIC_PATH_MATCH_def)

lemma getScriptRegExp_source:
  \<open>RegExp_new (''__webpack_require__'' @ [BSL] @ ''.p'' @ [BSL] @ ''s?'' @ [BSL] @ ''+[^'' @ [BSL] @ ''[]+'' @ [BSL] @ ''[('' @ [BSL] @ ''S+)]['' @ [BSL] @ ''s'' @ [BSL] @ ''S]+?'' @ [BSL] @ ''.js['"];?'') = Inr (getScriptRegExp, 1)\<close>
  by (simp add: parse_defs getScriptRegExp_def)

lemma getScriptRegExp_module_source:
  \<open>RegExp_new (''__webpack_require__'' @ [BSL] @ ''.p'' @ [BSL] @ ''s?'' @ [BSL] @ ''+[^[]+'' @ [BSL] @ ''[('' @ [BSL] @ ''S+)][^'' @ [BSL] @ ''n]+?'' @ [BSL] @ ''.js['"];?'') = Inr (getScriptRegExp_module, 1)\<close>
  by (simp add: parse_defs getScriptRegExp_module_def)

lemma getCssChunksRegExp_source:
  \<open>RegExp_new (''var'' @ [BSL] @ ''scssChunks'' @ [BSL] @ ''s*='' @ [BSL] @ ''s*([^;'' @ [BSL] @ ''n]+);'') = Inr (getCssChunksRegExp, 1)\<close>
  by (simp add: parse_defs getCssChunksRegExp_def)

lemma getCssHrefRegExp_source:
  \<open>RegExp_new (''var'' @ [BSL] @ ''shref'' @ [BSL] @ ''s*=[^'' @ [BSL] @ ''n]+?chunkId[^'' @ [BSL] @ ''n;]+;'') = Inr (getCssHrefRegExp, 0)\<close>
  by (simp add: parse_defs getCssHrefRegExp_def)

lemma hash_re_source:
  \<open>RegExp_new ([BSL] @ ''[hash(:'' @ [BSL] @ ''d+)?]'') = Inr (hash_re, 1)\<close>
  by (simp add: parse_defs hash_re_def)

lemma name_re_source:
  \<open>RegExp_new ([BSL] @ ''[name]'') = Inr (name_re, 0)\<close>
  by (simp add: parse_defs name_re_def)

lemma id_re_source:
  \<open>RegExp_new ([BSL] @ ''[id]'') = Inr (id_re, 0)\<close>
  by (simp add: parse_defs id_re_def)

lemma chunkhash_re_source:
  \<open>RegExp_new ([BSL] @ ''[chunkhash(:'' @ [BSL] @ ''d+)?]'') = Inr (chunkhash_re, 1)\<close>
  by (simp add: parse_defs chunkhash_re_def)

lemma contenthash_re_source:
  \<open>RegExp_new ([BSL] @ ''[contenthash(:'' @ [BSL] @ ''d+)?]'') = Inr (contenthash_re, 1)\<close>
  by (simp add: parse_defs contenthash_re_def)

lemma dot_re_source:
  \<open>RegExp_new ([BSL] @ ''.'') = Inr (dot_re, 0)\<close>
  by (simp add: parse_defs dot_re_def)

lemma dots_re_source:
  \<open>RegExp_new ([BSL] @ ''.+'') = Inr (dots_re, 0)\<close>
  by (simp add: parse_defs dots_re_def)

subsection \<open>Paths\<close>

text \<open>
  \<^verbatim>\<open>path.normalize\<close> and \<^verbatim>\<open>path.sep\<close> belong to the platform, not to the plugin; the
  functions that use them take the platform as an argument. \<open>posix\<close> is the platform of the
  POSIX systems: \<^verbatim>\<open>path.normalize\<close> drops empty and \<^verbatim>\<open>.\<close> segments, resolves \<^verbatim>\<open>..\<close>
  against the segment before it and keeps a trailing separator.
\<close>

record platform =
  path_normalize :: "string \<Rightarrow> string"
  path_sep :: char

fun normalize_segments :: "bool \<Rightarrow> string list \<Rightarrow> string list \<Rightarrow> string list" where
  \<comment> \<open>the segments kept so far are held latest first\<close>
  "normalize_segments up [] acc = rev acc"
| "normalize_segments up (seg # segs) acc =
     (if seg = [] \<or> seg = ''.'' then normalize_segments up segs acc
      else if seg = ''..'' then
        (case acc of
           [] \<Rightarrow> normalize_segments up segs (if up then [seg] else [])
         | a # acc' \<Rightarrow>
             if a = ''..'' then normalize_segments up segs (if up then seg # acc else acc)
             else normalize_segments up segs acc')
      else normalize_segments up segs (seg # acc))"

definition posix_normalize :: "string \<Rightarrow> string" where
  "posix_normalize p =
     (if p = [] then ''.''
      else let isAbsolute = (hd p = CHR ''/'');
               trailingSeparator = (last p = CHR ''/'');
               body = join ''/'' (normalize_segments (\<not> isAbsolute) (split_on CHR ''/'' p) [])
           in if body = [] then (if isAbsolute then ''/'' else if trailingSeparator then ''./'' else ''.'')
              else (if isAbsolute then ''/'' else []) @ body @ (if trailingSeparator then ''/'' else []))"

definition posix :: platform where
  "posix = \<lparr> path_normalize = posix_normalize, path_sep = CHR ''/'' \<rparr>"

definition DEFAULT_SEP :: char where
  "DEFAULT_SEP = CHR ''/''"

definition normalize :: "platform \<Rightarrow> string \<Rightarrow> string" where
  \<comment> \<open>\<^verbatim>\<open>path.normalize(input).split(path.sep).join(sep)\<close> with the default \<open>sep\<close>\<close>
  "normalize pf input = join [DEFAULT_SEP] (split_on (path_sep pf) (path_normalize pf input))"

subsection \<open>\<^verbatim>\<open>handlePublicPath\<close>\<close>

definition escape_dots :: "string \<Rightarrow> string" where
  \<comment> \<open>the callback of \<^verbatim>\<open>.map\<close>: every dot of a segment gets a backslash\<close>
  "escape_dots part =
     (if test dot_re part
      then replace_g dots_re (\<lambda>m cs bef aft. join [] (map (\<lambda>dot. BSL # [dot]) m)) [] part
      else part)"

definition publicPath_regStr :: "string \<Rightarrow> string" where
  "publicPath_regStr publicPath =
     join [BSL, CHR ''/'']
       (map escape_dots (filter (\<lambda>item. item \<noteq> []) (split_on DEFAULT_SEP publicPath)))"

definition handlePublicPath :: "string \<Rightarrow> string \<Rightarrow> js_error + string" where
  \<open>handlePublicPath publicPath content =
     (case RegExp_new (''([(=]['"]?)'' @ publicPath_regStr publicPath) of
        Inl e \<Rightarrow> Inl e
      | Inr (reg, ng) \<Rightarrow> Inr (replace_g reg (\<lambda>m cs bef aft. capture cs 1) [] content))\<close>

subsection \<open>\<^verbatim>\<open>generateLocalPathStr\<close> and \<^verbatim>\<open>generateLocalPathReg\<close>\<close>

fun localPath_parts :: "string list \<Rightarrow> string list" where
  \<comment> \<open>the callback of \<^verbatim>\<open>.map\<close>: the last part as it is, each other part optional\<close>
  "localPath_parts [] = []"
| "localPath_parts [part] = [part]"
| "localPath_parts (part # parts) =
     ([BSL] @ ''.?('' @ part @ '')?'') # localPath_parts parts"

definition generateLocalPathStr :: "string \<Rightarrow> string" where
  "generateLocalPathStr localPath =
     join ([BSL] @ [DEFAULT_SEP] @ ''?'') (localPath_parts (split_on DEFAULT_SEP localPath))"

definition generateLocalPathReg :: "string \<Rightarrow> js_error + (regex \<times> nat)" where
  \<open>generateLocalPathReg localPath =
     RegExp_new ((''([(=+]'' @ [BSL] @ ''s*['"]?)'') @ generateLocalPathStr localPath)\<close>

subsection \<open>The file system\<close>

text \<open>
  The files by path, and the writes made so far, oldest first. \<open>lastIndex\<close> is the
  \<^verbatim>\<open>lastIndex\<close> of the one regular expression object that the module shares between
  calls, \<^verbatim>\<open>PUBLIC_PATH_MATCH\<close>.
\<close>

record world =
  files :: "string \<Rightarrow> string option"
  writes :: "(string \<times> string) list"
  lastIndex :: nat

definition read_file :: "world \<Rightarrow> string \<Rightarrow> js_error + string" where
  "read_file w location = (case files w location of None \<Rightarrow> Inl ENOENT | Some content \<Rightarrow> Inr content)"

definition write_file :: "string \<Rightarrow> string \<Rightarrow> world \<Rightarrow> world" where
  "write_file location content w =
     w\<lparr> files := (files w)(location \<mapsto> content), writes := writes w @ [(location, content)] \<rparr>"

definition existsSync :: "world \<Rightarrow> string \<Rightarrow> bool" where
  "existsSync w location = (files w location \<noteq> None)"

subsection \<open>\<^verbatim>\<open>simpleReplace\<close>\<close>

text \<open>
  The result of a rewrite is the content computed and the list of the calls made to the
  caller's \<^verbatim>\<open>replaceFn\<close>, each with its two arguments, oldest first.
\<close>

type_synonym replaceFn = "string \<Rightarrow> string \<Rightarrow> string"

definition pairReplacer :: "string \<Rightarrow> replacer" where
  \<comment> \<open>\<^verbatim>\<open>(_, prefix) => `${prefix}${cdnPath}`\<close>\<close>
  "pairReplacer cdnPath m cs bef aft =
     (case map_of cs 1 of None \<Rightarrow> ''undefined'' | Some prefix \<Rightarrow> prefix) @ cdnPath"

fun savePair_reduce ::
  "platform \<Rightarrow> replaceFn \<Rightarrow> string \<Rightarrow> (string \<times> string) list \<Rightarrow>
   string \<times> (string \<times> string) list \<Rightarrow> js_error + (string \<times> (string \<times> string) list)" where
  "savePair_reduce pf replaceFn srcPath [] (last', calls) = Inr (last', calls)"
| "savePair_reduce pf replaceFn srcPath (file # pairs) (last', calls) =
     (case generateLocalPathReg (normalize pf (fst file)) of
        Inl e \<Rightarrow> Inl e
      | Inr (localPathReg, ng) \<Rightarrow>
          savePair_reduce pf replaceFn srcPath pairs
            (replace_g localPathReg (pairReplacer (snd file)) [] (replaceFn last' srcPath),
             calls @ [(last', srcPath)]))"

definition simpleReplace ::
  "platform \<Rightarrow> string \<Rightarrow> string option \<Rightarrow> replaceFn option \<Rightarrow> bool option \<Rightarrow>
   (string \<times> string) list \<Rightarrow> world \<Rightarrow> js_error + (world \<times> string \<times> (string \<times> string) list)" where
  \<comment> \<open>\<^verbatim>\<open>simpleReplace(srcPath, distPath, replaceFn, copyWhenUntouched)(localCdnPair)\<close>;
      an argument that is left out is \<open>None\<close> and takes its default\<close>
  "simpleReplace pf srcPath distPath' replaceFn' copyWhenUntouched' localCdnPair w =
     (let distPath = (case distPath' of None \<Rightarrow> srcPath | Some d \<Rightarrow> d);
          replaceFn = (case replaceFn' of None \<Rightarrow> (\<lambda>input location. input) | Some f \<Rightarrow> f);
          copyWhenUntouched = (case copyWhenUntouched' of None \<Rightarrow> True | Some b \<Rightarrow> b)
      in case read_file w srcPath of
           Inl e \<Rightarrow> Inl e
         | Inr srcFile \<Rightarrow>
             (case savePair_reduce pf replaceFn srcPath localCdnPair (srcFile, []) of
                Inl e \<Rightarrow> Inl e
              | Inr (ret, calls) \<Rightarrow>
                  let toCopy = (\<not> existsSync w distPath \<or> copyWhenUntouched \<or> ret \<noteq> srcFile)
                  in Inr (if toCopy then write_file distPath ret w else w, ret, calls)))"

subsection \<open>\<^verbatim>\<open>gatherChunks\<close>\<close>

datatype chunk_id = IdNum nat | IdStr string

record chunk =
  chunk_id :: chunk_id
  chunk_name :: "string option"
  renderedHash :: string
  contentHash :: "string option"   \<comment> \<open>\<^verbatim>\<open>contentHash.javascript\<close>, when the chunk has a \<^verbatim>\<open>contentHash\<close>\<close>

fun decimal :: "nat \<Rightarrow> string" where
  \<comment> \<open>the decimal digits of a number\<close>
  "decimal n =
     (if n < 10 then [''0123456789'' ! n]
      else decimal (n div 10) @ [''0123456789'' ! (n mod 10)])"

fun id_string :: "chunk_id \<Rightarrow> string" where
  \<comment> \<open>\<^verbatim>\<open>`${id}`\<close>, and the property key of \<^verbatim>\<open>last[id]\<close>. A numeric id is an integer that a
      JavaScript number holds exactly (below \<open>2\<^sup>5\<^sup>3\<close>); such a number prints as its decimal digits\<close>
  "id_string (IdNum n) = decimal n"
| "id_string (IdStr s) = s"

definition handleLen :: "string \<Rightarrow> replacer" where
  \<comment> \<open>\<^verbatim>\<open>source => (match, len) => len ? source.slice(0, +len.slice(1)) : match\<close>\<close>
  "handleLen source m cs bef aft =
     (case map_of cs 1 of
        None \<Rightarrow> m
      | Some len \<Rightarrow> if len \<noteq> [] then take (num_val (drop 1 len)) source else m)"

definition renderedName :: "chunk \<Rightarrow> string \<Rightarrow> string" where
  \<comment> \<open>the chain of four \<^verbatim>\<open>.replace\<close> calls\<close>
  "renderedName c chunkFileName =
     (let name_or_id = (case chunk_name c of
                          None \<Rightarrow> id_string (chunk_id c)
                        | Some nm \<Rightarrow> if nm \<noteq> [] then nm else id_string (chunk_id c));
          handleChunkHash = handleLen (renderedHash c);
          handleContentHash =
            handleLen (case contentHash c of None \<Rightarrow> renderedHash c | Some h \<Rightarrow> h);
          t1 = replace_g name_re (subst 0 name_or_id) [] chunkFileName;
          t2 = replace_g id_re (subst 0 (id_string (chunk_id c))) [] t1;
          t3 = replace_g chunkhash_re handleChunkHash [] t2
      in replace_g contenthash_re handleContentHash [] t3)"

fun gatherChunks_reduce :: "chunk list \<Rightarrow> string \<Rightarrow> js_object \<Rightarrow> js_error + js_object" where
  "gatherChunks_reduce [] chunkFileName last' = Inr last'"
| "gatherChunks_reduce (c # chunks) chunkFileName last' =
     (if test hash_re chunkFileName then Inl ConfigError
      else gatherChunks_reduce chunks chunkFileName
             (obj_set (id_string (chunk_id c)) (renderedName c chunkFileName) last'))"

definition gatherChunks :: "chunk list \<Rightarrow> string \<Rightarrow> js_error + js_object" where
  "gatherChunks chunks chunkFileName = gatherChunks_reduce chunks chunkFileName []"

subsection \<open>\<^verbatim>\<open>updateScriptSrc\<close>\<close>

definition srcAssignStr :: "js_object \<Rightarrow> string" where
  \<comment> \<open>\<^verbatim>\<open>`${JSON.stringify(chunkCdnMap)}[$1];`\<close>\<close>
  "srcAssignStr chunkCdnMap = JSON_stringify chunkCdnMap @ ''[$1];''"

definition updateScript_file :: "js_object \<Rightarrow> string \<Rightarrow> world \<Rightarrow> js_error + world" where
  \<comment> \<open>the callback of \<^verbatim>\<open>files.forEach\<close>\<close>
  \<open>updateScript_file chunkCdnMap file w =
     (case read_file w file of
        Inl e \<Rightarrow> Inl e
      | Inr content \<Rightarrow>
          let newContent =
                (if test getScriptRegExp content
                 then replace_g getScriptRegExp (subst 1 (srcAssignStr chunkCdnMap)) [] content
                 else content);
              found = test_g PUBLIC_PATH_MATCH (lastIndex w) content;
              newContent' =
                (if fst found
                 then replace_g PUBLIC_PATH_MATCH (subst 1 ''__webpack_require__.p = "";'') []
                        newContent
                 else newContent)
          in Inr (write_file file newContent'
                    (w\<lparr> lastIndex := (if fst found then 0 else snd found) \<rparr>)))\<close>

fun forEach :: "('a \<Rightarrow> world \<Rightarrow> js_error + world) \<Rightarrow> 'a list \<Rightarrow> world \<Rightarrow> js_error + world" where
  "forEach f [] w = Inr w"
| "forEach f (x # xs) w = (case f x w of Inl e \<Rightarrow> Inl e | Inr w' \<Rightarrow> forEach f xs w')"

definition updateScriptSrc :: "string list \<Rightarrow> js_object \<Rightarrow> world \<Rightarrow> js_error + world" where
  "updateScriptSrc files' chunkCdnMap w =
     (if length (map fst chunkCdnMap) = 0 then Inr w
      else forEach (updateScript_file chunkCdnMap) files' w)"

subsection \<open>\<^verbatim>\<open>updateCssLoad\<close>\<close>

text \<open>
  The callback of the replacement builds the text of a function and runs it with
  \<^verbatim>\<open>new Function(fnBody)()\<close>. Running JavaScript text is the engine's part: it is the
  argument \<open>run\<close>, which gives the list of \<^verbatim>\<open>{chunkId, href}\<close> that the call returns, or
  the error it throws.
\<close>

type_synonym js_engine = "string \<Rightarrow> js_error + (string \<times> string) list"

definition fnBody :: "string \<Rightarrow> string \<Rightarrow> string" where
  \<open>fnBody map' hrefMatch =
     [LF] @ ''            const map = '' @ map' @
     '';'' @ [LF] @ ''            return Object.keys(map).map(chunkId => {'' @ [LF] @ ''              '' @ hrefMatch @
     '';'' @ [LF] @ ''              href = href.replace(/^'' @ [BSL] @ ''./, "");'' @ [LF] @ ''              return {chunkId, href};'' @ [LF] @ ''            })'' @ [LF] @ ''          ''\<close>

fun findIndex :: "('a \<Rightarrow> bool) \<Rightarrow> 'a list \<Rightarrow> nat option" where
  \<comment> \<open>\<open>None\<close> is the \<^verbatim>\<open>-1\<close> of \<^verbatim>\<open>findIndex\<close>\<close>
  "findIndex P [] = None"
| "findIndex P (x # xs) = (if P x then Some 0 else map_option Suc (findIndex P xs))"

fun cssChunkIdCdnMap ::
  "(string \<times> string) list \<Rightarrow> (string \<times> string) list \<Rightarrow> js_object \<Rightarrow> js_object" where
  \<comment> \<open>the \<^verbatim>\<open>reduce\<close> over \<^verbatim>\<open>hrefArr\<close>\<close>
  "cssChunkIdCdnMap cssMap [] last' = last'"
| "cssChunkIdCdnMap cssMap ((chunkId, href) # hrefArr) last' =
     (case findIndex (\<lambda>key. contains key href) (map fst cssMap) of
        None \<Rightarrow> cssChunkIdCdnMap cssMap hrefArr last'
      | Some localIndex \<Rightarrow>
          cssChunkIdCdnMap cssMap hrefArr (obj_set chunkId (snd (cssMap ! localIndex)) last'))"

definition cssHrefReplacer ::
  "js_engine \<Rightarrow> (string \<times> string) list \<Rightarrow> string \<Rightarrow> string \<Rightarrow> js_error + string" where
  \<comment> \<open>the callback \<^verbatim>\<open>hrefMatch => ...\<close> of the replacement\<close>
  "cssHrefReplacer run cssMap map' hrefMatch =
     (case run (fnBody map' hrefMatch) of
        Inl e \<Rightarrow> Inl e
      | Inr hrefArr \<Rightarrow>
          let m = cssChunkIdCdnMap cssMap hrefArr []
          in if length (map fst m) = 0 then Inr hrefMatch
             else Inr (''var href = '' @ JSON_stringify m @ ''[chunkId];''))"

definition updateCss_file ::
  "js_engine \<Rightarrow> (string \<times> string) list \<Rightarrow> string \<Rightarrow> world \<Rightarrow> js_error + world" where
  \<comment> \<open>the callback of \<^verbatim>\<open>files.forEach\<close>; neither pattern has the global flag\<close>
  "updateCss_file run cssMap file w =
     (case read_file w file of
        Inl e \<Rightarrow> Inl e
      | Inr content \<Rightarrow>
          (case search getCssChunksRegExp content of
             None \<Rightarrow> Inr w
           | Some (sk, cs, m, rest) \<Rightarrow>
               (case search getCssHrefRegExp content of
                  None \<Rightarrow> Inr (write_file file content w)
                | Some (sk', cs', hrefMatch, rest') \<Rightarrow>
                    (case cssHrefReplacer run cssMap (capture cs 1) hrefMatch of
                       Inl e \<Rightarrow> Inl e
                     | Inr new \<Rightarrow> Inr (write_file file (sk' @ new @ rest') w)))))"

definition updateCssLoad ::
  "js_engine \<Rightarrow> string list \<Rightarrow> (string \<times> string) list \<Rightarrow> world \<Rightarrow> js_error + world" where
  "updateCssLoad run files' cssMap w = forEach (updateCss_file run cssMap) files' w"

subsection \<open>The handler of the compiler's \<^verbatim>\<open>done\<close> event\<close>

text \<open>
  A publish run records the batches of paths handed to \<^verbatim>\<open>cdn.upload\<close>, the errors handed
  to \<^verbatim>\<open>onError\<close> and whether \<^verbatim>\<open>onFinish\<close> was called. The handler awaits \<^verbatim>\<open>waitFor()\<close>,
  gathers the assets of \<^verbatim>\<open>staticDir\<close>, builds the chunk map and then runs the phases that
  classify, upload and rewrite. \<open>waitFor\<close> and \<open>manualAssets\<close> are the outcomes of the first
  two steps, which belong to the caller and to the file system. \<open>phases\<close> stands for the
  rest of the \<^verbatim>\<open>try\<close> block, the only part that calls \<^verbatim>\<open>cdn.upload\<close>: it returns the run
  as it has become and the error it has thrown, if any.
\<close>

record run =
  uploads :: "string list list"
  errors :: "js_error list"
  finished :: bool

definition catch :: "js_error \<Rightarrow> run \<Rightarrow> run" where
  \<comment> \<open>the \<^verbatim>\<open>catch\<close> block: \<^verbatim>\<open>onError(e)\<close>\<close>
  "catch e r = r\<lparr> errors := errors r @ [e] \<rparr>"

definition done_handler ::
  "(js_error + unit) \<Rightarrow> (js_error + 'a) \<Rightarrow> chunk list \<Rightarrow> string \<Rightarrow>
   ('a \<Rightarrow> js_object \<Rightarrow> run \<Rightarrow> run \<times> js_error option) \<Rightarrow> run \<Rightarrow> run" where
  "done_handler waitFor manualAssets chunks chunkFilename phases r =
     (case waitFor of
        Inl e \<Rightarrow> catch e r
      | Inr u \<Rightarrow>
          (case manualAssets of
             Inl e \<Rightarrow> catch e r
           | Inr assets \<Rightarrow>
               (case gatherChunks chunks chunkFilename of
                  Inl e \<Rightarrow> catch e r
                | Inr chunkMap \<Rightarrow>
                    (case phases assets chunkMap r of
                       (r', Some e) \<Rightarrow> catch e r'
                     | (r', None) \<Rightarrow> r'\<lparr> finished := True \<rparr>))))"

section \<open>Properties of the matcher\<close>

lemma reset_Nil [simp]: "reset [] cs = cs"
  by (simp add: reset_def)

lemma seq_of_Nil [simp]: "seq_of [] = Emp"
  by (simp add: seq_of_def)

lemma seq_of_Cons [simp]: "seq_of (r # rs) = Seq r (seq_of rs)"
  by (simp add: seq_of_def)

lemma search_here:
  assumes "rmatch r ([], s) = (cs, s') # others"
  shows "search r s = Some ([], cs, take (length s - length s') s, s')"
proof (cases s)
  case Nil
  with assms have "(cs, s') \<in> set (rmatch r ([], []))" by simp
  from rmatch_suffix[OF this] have "s' = []" by simp
  with Nil assms show ?thesis by simp
next
  case (Cons x xs)
  with assms show ?thesis by simp
qed

lemma search_skip:
  assumes "rmatch r ([], x # s) = []"
  shows "search r (x # s) = map_option (\<lambda>(sk, cs, m, rest). (x # sk, cs, m, rest)) (search r s)"
  using assms by (simp split: option.splits)

lemma search_found:
  assumes "rmatch r ([], s) \<noteq> []"
  shows "search r (a @ s) \<noteq> None"
proof (induction a)
  case Nil
  from assms obtain cs s' others where "rmatch r ([], s) = (cs, s') # others"
    by (cases "rmatch r ([], s)") auto
  from search_here[OF this] show ?case by simp
next
  case (Cons x a)
  then show ?case by (cases "rmatch r ([], x # a @ s)") (auto split: option.splits)
qed


lemma replace_g_Some:
  "search r s = Some (sk, cs, m, rest) \<Longrightarrow> m \<noteq> [] \<Longrightarrow>
   replace_g r f pre s = sk @ f m cs (pre @ sk) rest @ replace_g r f (pre @ sk @ m) rest"
  by (subst replace_g.simps) simp

subsection \<open>Quantifiers over one character\<close>

text \<open>
  An atom that reads one character (a literal, the dot, a class) matches where its predicate
  holds. A greedy quantifier over such an atom offers the longest run first and then each
  shorter one; a lazy quantifier offers them in the opposite order.
\<close>

definition one_char :: "regex \<Rightarrow> (char \<Rightarrow> bool) \<Rightarrow> bool" where
  "one_char a P =
     (groups a = [] \<and> (\<forall>cs. rmatch a (cs, []) = []) \<and>
      (\<forall>cs x xs. rmatch a (cs, x # xs) = (if P x then [(cs, xs)] else [])))"


lemma one_char_Dot: "one_char Dot (\<lambda>x. \<not> is_line_terminator x)"
  by (simp add: one_char_def)

lemma one_char_Cls: "one_char (Cls neg items) (class_matches neg items)"
  by (simp add: one_char_def)

fun greedy_run :: "(char \<Rightarrow> bool) \<Rightarrow> captures \<Rightarrow> string \<Rightarrow> mstate list" where
  "greedy_run P cs [] = [(cs, [])]"
| "greedy_run P cs (x # xs) = (if P x then greedy_run P cs xs @ [(cs, x # xs)] else [(cs, x # xs)])"


lemma star_greedy:
  assumes "one_char a P"
  shows "rmatch (Rep a 0 None True) (cs, s) = greedy_run P cs s"
proof (induction s)
  case Nil
  from assms show ?case by (simp add: rmatch.simps(9) one_char_def)
next
  case (Cons x xs)
  from assms have "rmatch (Rep a 0 None True) (cs, x # xs)
     = (if P x then rmatch (Rep a 0 None True) (cs, xs) @ [(cs, x # xs)] else [(cs, x # xs)])"
    by (subst rmatch.simps(9)) (simp add: one_char_def)
  with Cons show ?case by simp
qed


lemma plus_greedy:
  assumes "one_char a P"
  shows "rmatch (r_plus a) (cs, s)
     = (case s of [] \<Rightarrow> [] | x # xs \<Rightarrow> if P x then greedy_run P cs xs else [])"
  using assms star_greedy[OF assms]
  by (simp only: One_nat_def, subst rmatch.simps(8)) (simp add: one_char_def split: list.splits)


lemma opt_greedy:
  assumes "one_char a P"
  shows "rmatch (r_opt a) (cs, s)
     = (case s of [] \<Rightarrow> [(cs, [])] | x # xs \<Rightarrow> if P x then [(cs, xs), (cs, x # xs)] else [(cs, x # xs)])"
  using assms
  by (subst rmatch.simps(9)) (simp add: one_char_def rmatch.simps(9) split: list.splits)

lemma greedy_run_last: "(cs, rest) \<in> set (greedy_run P cs (run @ rest))"
  if "list_all P run"
  using that by (induction run) (auto, cases rest, auto)

lemma mem_Seq:
  "st1 \<in> set (rmatch a st) \<Longrightarrow> st2 \<in> set (rmatch b st1) \<Longrightarrow> st2 \<in> set (rmatch (Seq a b) st)"
  by auto

lemma mem_Grp:
  "(cs', s') \<in> set (rmatch r (cs, s)) \<Longrightarrow>
   ((i, take (length s - length s') s) # cs', s') \<in> set (rmatch (Grp i r) (cs, s))"
  by force

lemma mem_opt:
  "(cs', s') \<in> set (rmatch r (reset (groups r) cs, s)) \<Longrightarrow> length s' < length s \<Longrightarrow>
   (cs', s') \<in> set (rmatch (r_opt r) (cs, s))"
  by (subst rmatch.simps(9)) (force simp: rmatch.simps(9))


subsection \<open>The placeholder \<^verbatim>\<open>[hash]\<close>\<close>

lemma hash_plain: \<open>rmatch hash_re ([], ''[hash]'' @ b) \<noteq> []\<close>
  by (simp add: hash_re_def rmatch.simps)

lemma hash_len:
  assumes "ds \<noteq> []" "list_all is_digit ds"
  shows \<open>rmatch hash_re ([], ''[hash:'' @ ds @ '']'' @ b) \<noteq> []\<close>
proof -
  let ?tail = "CHR '']'' # b"
  let ?G = "Grp 1 (Seq (Chr CHR '':'') (Seq (r_plus r_digit) Emp))"
  from assms obtain d ds' where ds: "ds = d # ds'" by (cases ds) auto
  with assms have d: "is_digit d" and ds': "list_all is_digit ds'" by simp_all
  have oc: "one_char r_digit is_digit"
    using one_char_Cls[of False "[CEsc Digit]"] by (simp add: class_matches_def one_char_def)
  have "rmatch (r_plus r_digit) ([], ds @ ?tail) = greedy_run is_digit [] (ds' @ ?tail)"
    using plus_greedy[OF oc, of "[]" "ds @ ?tail"] d ds by simp
  with greedy_run_last[OF ds', of "[]" ?tail]
  have a1: "([], ?tail) \<in> set (rmatch (r_plus r_digit) ([], ds @ ?tail))" by simp
  have a2: "([], ?tail) \<in> set (rmatch Emp ([], ?tail))" by simp
  have a3: "([], ds @ ?tail) \<in> set (rmatch (Chr CHR '':'') ([], CHR '':'' # ds @ ?tail))" by simp
  note a4 = mem_Seq[OF a3 mem_Seq[OF a1 a2]]
  from mem_Grp[OF a4, of 1]
  obtain cs' where "(cs', ?tail) \<in> set (rmatch ?G (reset (groups ?G) [], CHR '':'' # ds @ ?tail))"
    by (auto simp: reset_def)
  then have a5: "(cs', ?tail) \<in> set (rmatch (r_opt ?G) ([], CHR '':'' # ds @ ?tail))"
    by (rule mem_opt) simp
  have a6: "(cs', b) \<in> set (rmatch (Seq (Chr CHR '']'') Emp) (cs', ?tail))" by simp
  from mem_Seq[OF a5 a6]
  have "rmatch (Seq (r_opt ?G) (Seq (Chr CHR '']'') Emp)) ([], CHR '':'' # ds @ ?tail) \<noteq> []"
    by auto
  then show ?thesis
    by (simp add: hash_re_def)
qed

lemma test_hash:
  assumes "n = [] \<or> (\<exists>ds. n = CHR '':'' # ds \<and> ds \<noteq> [] \<and> list_all is_digit ds)"
  shows \<open>test hash_re (a @ ''[hash'' @ n @ '']'' @ b)\<close>
proof -
  from assms have \<open>rmatch hash_re ([], ''[hash'' @ n @ '']'' @ b) \<noteq> []\<close>
    using hash_plain[of b] hash_len[of _ b] by auto
  from search_found[OF this, of a] show ?thesis by (simp add: test_def)
qed

subsection \<open>The first match\<close>

text \<open>
  \<open>no_match_in r a s\<close>: in the text \<open>a @ s\<close> the pattern has no match that starts inside \<open>a\<close>.
  \<open>first r st st'\<close>: the match that the matcher reports for \<open>r\<close> in the state \<open>st\<close> ends in
  the state \<open>st'\<close>.
\<close>

fun no_match_in :: "regex \<Rightarrow> string \<Rightarrow> string \<Rightarrow> bool" where
  "no_match_in r [] s = True"
| "no_match_in r (x # xs) s = (rmatch r ([], x # xs @ s) = [] \<and> no_match_in r xs s)"

lemma search_after_gap:
  "no_match_in r a s \<Longrightarrow>
   search r (a @ s) = map_option (\<lambda>(sk, cs, m, rest). (a @ sk, cs, m, rest)) (search r s)"
proof (induction a)
  case Nil
  then show ?case by (simp add: option.map_ident case_prod_unfold)
next
  case (Cons x a)
  then have "rmatch r ([], x # a @ s) = []" and "no_match_in r a s" by simp_all
  with Cons.IH search_skip[of r x "a @ s"] show ?case
    by (cases "search r s") auto
qed

lemma rmatch_lits:
  "rmatch (seq_of (lit w @ rs)) (cs, w @ s) = rmatch (seq_of rs) (cs, s)"
  by (induction w) simp_all

lemma greedy_run_concat:
  assumes "list_all P run" "\<not> P c" and "\<And>y ys. P y \<Longrightarrow> F (cs, y # ys) = []"
  shows "concat (map F (greedy_run P cs (run @ c # rest))) = F (cs, c # rest)"
  using assms(1)
proof (induction run)
  case Nil
  with assms(2) show ?case by simp
next
  case (Cons y run)
  with assms(3)[of y] show ?case by simp
qed

lemma subst_plain: "CHR ''$'' \<notin> set t \<Longrightarrow> subst ng t m cs bef aft = t"
  by (induction ng t m cs bef aft rule: subst.induct) auto

definition first :: "regex \<Rightarrow> mstate \<Rightarrow> mstate \<Rightarrow> bool" where
  "first r st st' = (\<exists>others. rmatch r st = st' # others)"


lemma first_Seq: "first a st st1 \<Longrightarrow> first b st1 st2 \<Longrightarrow> first (Seq a b) st st2"
  by (auto simp: first_def)

lemma first_Seq_retry:
  "rmatch a st = st1 # st2 # others \<Longrightarrow> rmatch b st1 = [] \<Longrightarrow> first b st2 st' \<Longrightarrow>
   first (Seq a b) st st'"
  by (auto simp: first_def)

lemma first_Chr: "first (Chr c) (cs, c # s) (cs, s)"
  by (simp add: first_def)

lemma first_lits: "first (seq_of rs) (cs, s) st' \<Longrightarrow> first (seq_of (lit w @ rs)) (cs, w @ s) st'"
  by (simp add: first_def rmatch_lits)


lemma first_search:
  assumes "first r ([], m @ s) (cs, s)"
  shows "search r (m @ s) = Some ([], cs, m, s)"
proof -
  from assms obtain others where "rmatch r ([], m @ s) = (cs, s) # others"
    by (auto simp: first_def)
  from search_here[OF this] show ?thesis by simp
qed

lemma one_char_space: "one_char r_space is_space"
  using one_char_Cls[of False "[CEsc Space]"] by (simp add: class_matches_def one_char_def)

lemma one_char_not: "one_char (Cls True [CChar c]) (\<lambda>x. x \<noteq> c)"
  using one_char_Cls[of True "[CChar c]"] by (simp add: class_matches_def one_char_def)

lemma first_opt_skip:
  assumes "one_char a P" "s = [] \<or> \<not> P (hd s)"
  shows "first (r_opt a) (cs, s) (cs, s)"
  using assms opt_greedy[OF assms(1), of cs s]
  by (cases s) (auto simp: first_def)

lemma first_opt_take:
  assumes "one_char a P" "P x"
  shows "first (r_opt a) (cs, x # s) (cs, s)"
  using assms opt_greedy[OF assms(1), of cs "x # s"]
  by (auto simp: first_def)

lemma opt_take_both:
  assumes "one_char a P" "P x"
  shows "rmatch (r_opt a) (cs, x # s) = [(cs, s), (cs, x # s)]"
  using assms opt_greedy[OF assms(1), of cs "x # s"] by simp

subsection \<open>The public path pattern\<close>

lemma public_path_tail:
  assumes "e \<noteq> []" "CHR '';'' \<notin> set e"
  shows "rmatch (seq_of [Grp 1 (seq_of [r_plus (Cls True [CChar CHR '';''])]), Chr CHR '';''])
           (cs, e @ CHR '';'' # b)
         = [((1, e) # cs, b)]"
proof -
  let ?P = "\<lambda>x. x \<noteq> CHR '';''"
  let ?C = "Cls True [CChar CHR '';'']"
  from assms obtain x e' where e: "e = x # e'" by (cases e) auto
  with assms have x: "?P x" and e': "list_all ?P e'" by (auto simp: list_all_iff)
  let ?s = "x # e' @ CHR '';'' # b"
  let ?F = "\<lambda>st. rmatch (Seq (Chr CHR '';'') Emp)
                 (case st of (cs', s') \<Rightarrow> ((1, take (length ?s - length s') ?s) # cs', s'))"
  have plus: "rmatch (r_plus ?C) (cs, ?s) = greedy_run ?P cs (e' @ CHR '';'' # b)"
    using plus_greedy[OF one_char_not, of "CHR '';''" cs ?s] x by simp
  have "rmatch (seq_of [Grp 1 (seq_of [r_plus ?C]), Chr CHR '';'']) (cs, ?s)
        = concat (map ?F (greedy_run ?P cs (e' @ CHR '';'' # b)))"
    by (simp add: plus map_concat comp_def case_prod_unfold del: One_nat_def)
  also have "\<dots> = ?F (cs, CHR '';'' # b)"
    by (rule greedy_run_concat[OF e']) auto
  also have "\<dots> = [((1, x # e') # cs, b)]"
    by simp
  finally show ?thesis using e by simp
qed

lemma public_path_tail_none:
  "rmatch (seq_of [Grp 1 (seq_of [r_plus (Cls True [CChar CHR '';''])]), Chr CHR '';''])
           (cs, CHR '';'' # b) = []"
  using plus_greedy[OF one_char_not, of "CHR '';''" cs "CHR '';'' # b"]
  by (simp del: One_nat_def)

lemma public_path_first:
  assumes s1: "s1 = [] \<or> (\<exists>c. s1 = [c] \<and> is_space c)"
    and e: "e \<noteq> []" "CHR '';'' \<notin> set e"
  shows "\<exists>cs'. first PUBLIC_PATH_MATCH
              ([], ''__webpack_require__.p'' @ s1 @ CHR ''='' # e @ CHR '';'' # b) (cs', b)"
proof -
  let ?T = "seq_of [Grp 1 (seq_of [r_plus (Cls True [CChar CHR '';''])]), Chr CHR '';'']"
  let ?cs = "[] :: captures"
  from e obtain x e' where xe: "e = x # e'" by (cases e) auto
  have tail: "\<exists>cs'. first (Seq (r_opt r_space) ?T) (?cs, e @ CHR '';'' # b) (cs', b)"
  proof (cases "is_space x")
    case False
    have "first (r_opt r_space) (?cs, e @ CHR '';'' # b) (?cs, e @ CHR '';'' # b)"
      using first_opt_skip[OF one_char_space, of "e @ CHR '';'' # b" ?cs] False xe by simp
    moreover have "first ?T (?cs, e @ CHR '';'' # b) ((1, e) # ?cs, b)"
      using public_path_tail[OF e, of ?cs b] by (simp add: first_def)
    ultimately show ?thesis using first_Seq by blast
  next
    case True
    show ?thesis
    proof (cases "e' = []")
      case False
      from e xe have e'': "CHR '';'' \<notin> set e'" by simp
      have "first (r_opt r_space) (?cs, e @ CHR '';'' # b) (?cs, e' @ CHR '';'' # b)"
        using first_opt_take[OF one_char_space True, of ?cs "e' @ CHR '';'' # b"] xe by simp
      moreover have "first ?T (?cs, e' @ CHR '';'' # b) ((1, e') # ?cs, b)"
        using public_path_tail[OF False e'', of ?cs b] by (simp add: first_def)
      ultimately show ?thesis using first_Seq by blast
    next
      case e'Nil: True
      have both: "rmatch (r_opt r_space) (?cs, e @ CHR '';'' # b)
                  = [(?cs, CHR '';'' # b), (?cs, e @ CHR '';'' # b)]"
        using opt_take_both[OF one_char_space True, of ?cs "CHR '';'' # b"] xe e'Nil by simp
      have none: "rmatch ?T (?cs, CHR '';'' # b) = []"
        by (rule public_path_tail_none)
      have "first ?T (?cs, e @ CHR '';'' # b) ((1, e) # ?cs, b)"
        using public_path_tail[OF e, of ?cs b] by (simp add: first_def)
      from first_Seq_retry[OF both none this] show ?thesis by blast
    qed
  qed
  then obtain cs' where t: "first (Seq (r_opt r_space) ?T) (?cs, e @ CHR '';'' # b) (cs', b)"
    by blast
  have eq: "first (Seq (Chr CHR ''='') (Seq (r_opt r_space) ?T)) (?cs, CHR ''='' # e @ CHR '';'' # b) (cs', b)"
    using first_Seq[OF first_Chr t] .
  have sp: "first (r_opt r_space) (?cs, s1 @ CHR ''='' # e @ CHR '';'' # b) (?cs, CHR ''='' # e @ CHR '';'' # b)"
  proof (cases "s1 = []")
    case True
    then show ?thesis
      using first_opt_skip[OF one_char_space, of "CHR ''='' # e @ CHR '';'' # b" ?cs]
      by (simp add: is_space_def)
  next
    case False
    with s1 obtain c where "s1 = [c]" "is_space c" by blast
    then show ?thesis
      using first_opt_take[OF one_char_space, of c ?cs "CHR ''='' # e @ CHR '';'' # b"] by simp
  qed
  have "first (seq_of [r_opt r_space, Chr CHR ''='', r_opt r_space,
                       Grp 1 (seq_of [r_plus (Cls True [CChar CHR '';''])]), Chr CHR '';''])
          (?cs, s1 @ CHR ''='' # e @ CHR '';'' # b) (cs', b)"
    using first_Seq[OF sp eq] by simp
  from first_lits[OF this, of "''__webpack_require__.p''"]
  show ?thesis by (auto simp: PUBLIC_PATH_MATCH_def)
qed

lemma test_g_zero: "test_g r 0 s = (test r s, case search r s of None \<Rightarrow> 0 | Some (sk, cs, m, rest) \<Rightarrow> length sk + length m)"
  by (auto simp: test_g_def test_def split: option.splits)

lemma public_path_replace:
  assumes s1: "s1 = [] \<or> (\<exists>c. s1 = [c] \<and> is_space c)"
    and e: "e \<noteq> []" "CHR '';'' \<notin> set e"
    and stmt: "stmt = ''__webpack_require__.p'' @ s1 @ CHR ''='' # e @ '';''"
    and gap: "no_match_in PUBLIC_PATH_MATCH a (stmt @ b)"
  shows \<open>replace_g PUBLIC_PATH_MATCH (subst 1 ''__webpack_require__.p = "";'') pre (a @ stmt @ b)
         = a @ ''__webpack_require__.p = "";'' @
           replace_g PUBLIC_PATH_MATCH (subst 1 ''__webpack_require__.p = "";'') (pre @ a @ stmt) b\<close>
proof -
  from public_path_first[OF s1 e, of b] obtain cs'
    where "first PUBLIC_PATH_MATCH ([], stmt @ b) (cs', b)"
    by (auto simp: stmt)
  from first_search[OF this] have "search PUBLIC_PATH_MATCH (stmt @ b) = Some ([], cs', stmt, b)" .
  with search_after_gap[OF gap]
  have found: "search PUBLIC_PATH_MATCH (a @ stmt @ b) = Some (a, cs', stmt, b)" by simp
  have ne: "stmt \<noteq> []" by (simp add: stmt)
  have \<open>subst 1 ''__webpack_require__.p = "";'' stmt cs' (pre @ a) b = ''__webpack_require__.p = "";''\<close>
    by (rule subst_plain) simp
  with replace_g_Some[OF found ne, of "subst 1 ''__webpack_require__.p = \"\";''" pre]
  show ?thesis by simp
qed

lemma updateScript_file_public_path:
  assumes f: "files w file' = Some content" and li: "lastIndex w = 0"
    and has: "test PUBLIC_PATH_MATCH content"
    and patched: "(if test getScriptRegExp content
          then replace_g getScriptRegExp (subst 1 (srcAssignStr chunkCdnMap)) [] content
          else content) = a @ stmt @ b"
    and stmt: "stmt = ''__webpack_require__.p'' @ s1 @ CHR ''='' # e @ '';''"
    and s1: "s1 = [] \<or> (\<exists>c. s1 = [c] \<and> is_space c)"
    and e: "e \<noteq> []" "CHR '';'' \<notin> set e"
    and gap: "no_match_in PUBLIC_PATH_MATCH a (stmt @ b)"
  shows \<open>updateScript_file chunkCdnMap file' w
     = Inr (write_file file'
                 (a @ ''__webpack_require__.p = "";'' @
                  replace_g PUBLIC_PATH_MATCH (subst 1 ''__webpack_require__.p = "";'')
                    (a @ stmt) b) w)\<close>
proof -
  let ?new = "if test getScriptRegExp content
          then replace_g getScriptRegExp (subst 1 (srcAssignStr chunkCdnMap)) [] content
          else content"
  from li have w: "w\<lparr>lastIndex := 0\<rparr> = w" by simp
  have step1: \<open>updateScript_file chunkCdnMap file' w
     = Inr (write_file file'
              (replace_g PUBLIC_PATH_MATCH (subst 1 ''__webpack_require__.p = "";'') [] ?new)
              (w\<lparr>lastIndex := 0\<rparr>))\<close>
    using f li has by (simp add: updateScript_file_def read_file_def test_g_zero Let_def)
  have step2: \<open>replace_g PUBLIC_PATH_MATCH (subst 1 ''__webpack_require__.p = "";'') [] ?new
     = a @ ''__webpack_require__.p = "";'' @
       replace_g PUBLIC_PATH_MATCH (subst 1 ''__webpack_require__.p = "";'') (a @ stmt) b\<close>
    unfolding patched
    using public_path_replace[OF s1 e stmt gap, of "[]"] by (simp only: append_Nil)
  show ?thesis unfolding step1 step2 w ..
qed

subsection \<open>The chunk dispatch pattern\<close>



lemma one_char_quote:
  "one_char (Cls False [CChar (CHR 0x27), CChar (CHR 0x22)]) (\<lambda>x. x = CHR 0x27 \<or> x = CHR 0x22)"
  using one_char_Cls[of False "[CChar (CHR 0x27), CChar (CHR 0x22)]"]
  by (simp add: class_matches_def one_char_def)

















subsection \<open>The local path pattern\<close>







































lemma groups_lit [simp]: "groups (seq_of (lit d)) = []"
  by (induction d) simp_all


























section \<open>Properties of the rewriting functions\<close>

text \<open>
  \<open>apply_pairs\<close> states what a rewrite computes: for each pair in turn, the transform is
  applied to the content so far and the occurrences of the pair's path are then replaced.
\<close>

definition apply_pairs :: "platform \<Rightarrow> replaceFn \<Rightarrow> string \<Rightarrow> (string \<times> string) list \<Rightarrow> string \<Rightarrow> string" where
  "apply_pairs pf f srcPath pairs content =
     foldl (\<lambda>c file. case generateLocalPathReg (normalize pf (fst file)) of
                        Inl e \<Rightarrow> c
                      | Inr (r, ng) \<Rightarrow> replace_g r (pairReplacer (snd file)) [] (f c srcPath))
       content pairs"

lemma apply_pairs_Nil [simp]: "apply_pairs pf f srcPath [] c = c"
  by (simp add: apply_pairs_def)

lemma savePair_reduce_calls:
  "savePair_reduce pf f srcPath pairs (c, calls) = Inr (ret, calls') \<Longrightarrow>
   ret = apply_pairs pf f srcPath pairs c \<and>
   calls' = calls @ map (\<lambda>i. (apply_pairs pf f srcPath (take i pairs) c, srcPath)) [0..<length pairs]"
proof (induction pairs arbitrary: c calls)
  case Nil
  then show ?case by (simp add: apply_pairs_def)
next
  case (Cons pr pairs)
  from Cons.prems obtain r ng where reg: "generateLocalPathReg (normalize pf (fst pr)) = Inr (r, ng)"
    and rest: "savePair_reduce pf f srcPath pairs
                 (replace_g r (pairReplacer (snd pr)) [] (f c srcPath), calls @ [(c, srcPath)])
               = Inr (ret, calls')"
    by (auto split: sum.splits)
  let ?c1 = "replace_g r (pairReplacer (snd pr)) [] (f c srcPath)"
  from Cons.IH[OF rest]
  have ret: "ret = apply_pairs pf f srcPath pairs ?c1"
    and calls: "calls' = (calls @ [(c, srcPath)]) @
        map (\<lambda>i. (apply_pairs pf f srcPath (take i pairs) ?c1, srcPath)) [0..<length pairs]"
    by simp_all
  have step: "\<And>ps. apply_pairs pf f srcPath (pr # ps) c = apply_pairs pf f srcPath ps ?c1"
    by (simp add: apply_pairs_def reg)
  have "map (\<lambda>i. (apply_pairs pf f srcPath (take i (pr # pairs)) c, srcPath)) [0..<length (pr # pairs)]
      = (c, srcPath) # map (\<lambda>i. (apply_pairs pf f srcPath (take i pairs) ?c1, srcPath)) [0..<length pairs]"
  proof -
    have "[0..<length (pr # pairs)] = 0 # map Suc [0..<length pairs]"
      by (simp add: upt_conv_Cons map_Suc_upt del: upt_Suc)
    then show ?thesis
      by (simp add: step comp_def del: upt_Suc)
  qed
  with ret calls step show ?case by simp
qed


lemma simpleReplace_result:
  assumes "simpleReplace pf srcPath distPath' replaceFn' cwu' pairs w = Inr (w', ret, calls)"
  shows "\<exists>srcFile. read_file w srcPath = Inr srcFile \<and>
     ret = apply_pairs pf (case replaceFn' of None \<Rightarrow> (\<lambda>input location. input) | Some f \<Rightarrow> f) srcPath pairs srcFile \<and>
     calls = map (\<lambda>i. (apply_pairs pf (case replaceFn' of None \<Rightarrow> (\<lambda>input location. input) | Some f \<Rightarrow> f) srcPath (take i pairs) srcFile, srcPath)) [0..<length pairs] \<and>
     w' = (if \<not> existsSync w (case distPath' of None \<Rightarrow> srcPath | Some d \<Rightarrow> d)
              \<or> (case cwu' of None \<Rightarrow> True | Some b \<Rightarrow> b) \<or> ret \<noteq> srcFile
           then write_file (case distPath' of None \<Rightarrow> srcPath | Some d \<Rightarrow> d) ret w else w)"
proof -
  let ?f = "case replaceFn' of None \<Rightarrow> (\<lambda>input location. input) | Some f \<Rightarrow> f"
  from assms obtain srcFile where src: "read_file w srcPath = Inr srcFile"
    by (auto simp: simpleReplace_def Let_def split: sum.splits)
  with assms obtain r c where red: "savePair_reduce pf ?f srcPath pairs (srcFile, []) = Inr (r, c)"
    by (auto simp: simpleReplace_def Let_def split: sum.splits)
  from savePair_reduce_calls[OF red] assms src red show ?thesis
    by (auto simp: simpleReplace_def Let_def)
qed



subsection \<open>The keys of a rewritten stylesheet map\<close>

lemma findIndex_None_iff: "findIndex P xs = None \<longleftrightarrow> \<not> list_ex P xs"
  by (induction xs) auto

lemma obj_insert_set: "set (obj_insert k v ob) = insert (k, v) (set ob)"
  by (induction ob) (auto split: if_splits)

lemma obj_set_keys: "fst ` set (obj_set k v ob) = insert k (fst ` set ob)"
proof (cases "k \<in> fst ` set ob")
  case True
  have "map fst (map (\<lambda>(k', v'). if k' = k then (k', v) else (k', v')) ob) = map fst ob"
    by (induction ob) auto
  then have "fst ` set (map (\<lambda>(k', v'). if k' = k then (k', v) else (k', v')) ob) = fst ` set ob"
    by (metis list.set_map)
  with True show ?thesis by (auto simp: obj_set_def)
next
  case False
  then show ?thesis by (simp add: obj_set_def obj_insert_set)
qed

definition resolved_ids :: "(string \<times> string) list \<Rightarrow> (string \<times> string) list \<Rightarrow> string set" where
  "resolved_ids cssMap hrefArr =
     {chunkId. \<exists>href. (chunkId, href) \<in> set hrefArr \<and>
                       list_ex (\<lambda>key. contains key href) (map fst cssMap)}"

lemma resolved_ids_Nil [simp]: "resolved_ids cssMap [] = {}"
  by (simp add: resolved_ids_def)

lemma resolved_ids_Cons:
  "resolved_ids cssMap ((chunkId, href) # hrefArr)
   = (if list_ex (\<lambda>key. contains key href) (map fst cssMap) then {chunkId} else {})
     \<union> resolved_ids cssMap hrefArr"
  by (auto simp: resolved_ids_def)

lemma cssChunkIdCdnMap_keys:
  "fst ` set (cssChunkIdCdnMap cssMap hrefArr ob) = fst ` set ob \<union> resolved_ids cssMap hrefArr"
proof (induction hrefArr arbitrary: ob)
  case Nil
  then show ?case by simp
next
  case (Cons a hrefArr)
  obtain chunkId href where a: "a = (chunkId, href)" by (cases a)
  show ?case
  proof (cases "findIndex (\<lambda>key. contains key href) (map fst cssMap)")
    case None
    then have no: "\<not> list_ex (\<lambda>key. contains key href) (map fst cssMap)"
      by (simp add: findIndex_None_iff)
    from None a have "cssChunkIdCdnMap cssMap (a # hrefArr) ob = cssChunkIdCdnMap cssMap hrefArr ob"
      by simp
    with Cons.IH[of ob] no a show ?thesis
      by (simp add: resolved_ids_Cons)
  next
    case (Some i)
    then have yes: "list_ex (\<lambda>key. contains key href) (map fst cssMap)"
      using findIndex_None_iff[of "\<lambda>key. contains key href" "map fst cssMap"] by simp
    from Some a have "cssChunkIdCdnMap cssMap (a # hrefArr) ob
        = cssChunkIdCdnMap cssMap hrefArr (obj_set chunkId (snd (cssMap ! i)) ob)"
      by simp
    with Cons.IH[of "obj_set chunkId (snd (cssMap ! i)) ob"] yes a show ?thesis
      by (simp add: resolved_ids_Cons obj_set_keys)
  qed
qed

section \<open>Evaluation\<close>

lemmas match_defs = rmatch.simps replace_g.simps class_matches_def is_space_def is_digit_def
  is_word_def is_line_terminator_def reset_def capture_def digit_val_def seq_of_def test_def
  test_g_def Let_def

lemmas chunk_defs = gatherChunks_def renderedName_def hash_re_def name_re_def id_re_def
  chunkhash_re_def contenthash_re_def handleLen_def obj_set_def

lemmas publicPath_defs = handlePublicPath_def publicPath_regStr_def escape_dots_def dot_re_def
  dots_re_def DEFAULT_SEP_def


lemmas world_defs = updateScriptSrc_def updateScript_file_def read_file_def write_file_def
  srcAssignStr_def JSON_stringify_def json_quote_def json_char_def getScriptRegExp_def
  PUBLIC_PATH_MATCH_def



definition app_chunk :: chunk where
  \<comment> \<open>the chunk of Scenario A\<close>
  "app_chunk = \<lparr>chunk_id = IdNum 1, chunk_name = Some ''app'', renderedHash = ''abcdef1234'', contentHash = None\<rparr>"

definition upload_all :: "unit \<Rightarrow> js_object \<Rightarrow> run \<Rightarrow> run \<times> js_error option" where
  "upload_all assets chunkMap r = (r\<lparr> uploads := uploads r @ [map snd chunkMap] \<rparr>, None)"

definition mark :: replaceFn where
  "mark content location = content @ ''!''"

definition note_world :: world where
  "note_world = \<lparr> files = [''/src/note.html'' \<mapsto> ''x''], writes = [], lastIndex = 0 \<rparr>"

lemma posix_a: "normalize posix ''/dist/a.png'' = ''/dist/a.png''"
  by (simp add: normalize_def posix_def posix_normalize_def DEFAULT_SEP_def)

lemma posix_b: "normalize posix ''/dist/b.png'' = ''/dist/b.png''"
  by (simp add: normalize_def posix_def posix_normalize_def DEFAULT_SEP_def)

lemmas localPath_defs = generateLocalPathReg_def generateLocalPathStr_def DEFAULT_SEP_def parse_defs



definition css_world :: world where
  \<open>css_world =
     \<lparr> files = [''/dist/entry.js'' \<mapsto>
                  ''var cssChunks = {"0":1,"1":1};'' @ [LF] @
                  ''var href = "css/" + chunkId + ".css";''],
       writes = [], lastIndex = 0 \<rparr>\<close>

definition css_engine :: js_engine where
  \<comment> \<open>what the engine returns for the function text built from the script of \<open>css_world\<close>\<close>
  \<open>css_engine body =
     (if body = fnBody ''{"0":1,"1":1}'' ''var href = "css/" + chunkId + ".css";''
      then Inr [(''0'', ''css/0.css''), (''1'', ''css/1.css'')]
      else Inl Unsupported)\<close>

lemmas css_defs = updateCssLoad_def updateCss_file_def cssHrefReplacer_def read_file_def
  getCssChunksRegExp_def getCssHrefRegExp_def JSON_stringify_def json_quote_def json_char_def
  obj_set_def

definition bootstrap_world :: world where
  \<comment> \<open>an entry script with a dispatch expression and a public path assignment after it\<close>
  \<open>bootstrap_world =
     \<lparr> files = [''/dist/main.js'' \<mapsto>
         ''x = __webpack_require__.p + "" + ({}[chunkId]||chunkId) + ".js"; __webpack_require__.p = "/x/"; d = 1;''],
       writes = [], lastIndex = 0 \<rparr>\<close>

definition swallow_world :: world where
  \<comment> \<open>a script whose public path assignment stands inside the span of the dispatch pattern\<close>
  \<open>swallow_world =
     \<lparr> files = [''/dist/main.js'' \<mapsto>
         ''__webpack_require__.p + a[b] + c; __webpack_require__.p = "/x/"; d = ".js";''],
       writes = [], lastIndex = 0 \<rparr>\<close>


lemma getScriptRegExp_module_scenario_C:
  \<open>replace_g getScriptRegExp_module
         (subst 1 (srcAssignStr [(''1'', ''https://cdn/chunk1.js'')])) []
         ''__webpack_require__.p + map[id] + ".js"''
       = ''{"1":"https://cdn/chunk1.js"}[id];''\<close>
  by (simp add: world_defs getScriptRegExp_module_def match_defs)




section \<open>The claims\<close>


text \<open>
  C3, at the input where the code departs from it. For the template \<^verbatim>\<open>[chunkhash].js\<close> and
  the chunk \<^verbatim>\<open>{id: 1, name: "app", renderedHash: "abcdef1234"}\<close> the claim gives the name
  \<^verbatim>\<open>abcdef1234.js\<close>, the full hash; \<^verbatim>\<open>gatherChunks\<close> leaves the placeholder in the name.
  With a length the hash is cut as the claim says.
\<close>

theorem C3_chunkhash_without_length_is_kept:
  \<open>gatherChunks
     [\<lparr>chunk_id = IdNum 1, chunk_name = Some ''app'', renderedHash = ''abcdef1234'',
       contentHash = None\<rparr>] ''[chunkhash].js''
   = Inr [(''1'', ''[chunkhash].js'')]
   \<and> gatherChunks
     [\<lparr>chunk_id = IdNum 1, chunk_name = Some ''app'', renderedHash = ''abcdef1234'',
       contentHash = None\<rparr>] ''app.[name].[chunkhash:8].js''
   = Inr [(''1'', ''app.app.abcdef12.js'')]\<close>
proof -
  have \<open>gatherChunks
     [\<lparr>chunk_id = IdNum 1, chunk_name = Some ''app'', renderedHash = ''abcdef1234'',
       contentHash = None\<rparr>] ''[chunkhash].js''
   = Inr [(''1'', ''[chunkhash].js'')]\<close>
    by (simp add: chunk_defs match_defs)
  moreover have \<open>gatherChunks
     [\<lparr>chunk_id = IdNum 1, chunk_name = Some ''app'', renderedHash = ''abcdef1234'',
       contentHash = None\<rparr>] ''app.[name].[chunkhash:8].js''
   = Inr [(''1'', ''app.app.abcdef12.js'')]\<close>
    by (simp add: chunk_defs match_defs)
  ultimately show ?thesis by blast
qed

text \<open>
  C5, at the input where the code departs from it. For the public path \<^verbatim>\<open>/static/\<close> and the
  content \<^verbatim>\<open>src="/static/a.png"\<close> the claim gives \<^verbatim>\<open>src="a.png"\<close>. \<^verbatim>\<open>handlePublicPath\<close> drops
  the empty segments of the public path before it builds the pattern, so the text of the
  pattern is \<^verbatim>\<open>([(=]['"]?)static\<close> and asks for \<^verbatim>\<open>static\<close> right after the quote. In the
  content the quote is followed by \<^verbatim>\<open>/\<close>: nothing matches and the content is returned as it
  was, with the public path still in it. The reference that the pattern does match is the
  one without the leading slash, and there the slash after the public path is left behind.
\<close>

theorem C5_leading_slash_public_path_is_kept:
  \<open>publicPath_regStr ''/static/'' = ''static''
   \<and> handlePublicPath ''/static/'' ''src="/static/a.png"'' = Inr ''src="/static/a.png"''
   \<and> handlePublicPath ''/static/'' ''src="static/a.png"'' = Inr ''src="/a.png"''\<close>
proof -
  have \<open>publicPath_regStr ''/static/'' = ''static''\<close>
    by (simp add: publicPath_defs match_defs)
  moreover have
    \<open>handlePublicPath ''/static/'' ''src="/static/a.png"'' = Inr ''src="/static/a.png"''\<close>
    by (simp add: publicPath_defs parse_defs match_defs)
  moreover have \<open>handlePublicPath ''/static/'' ''src="static/a.png"'' = Inr ''src="/a.png"''\<close>
    by (simp add: publicPath_defs parse_defs match_defs)
  ultimately show ?thesis by blast
qed




text \<open>
  C2, as stated, fails: for the empty chunk list no error is thrown, whatever the template
  holds, because the check is made once per chunk inside the loop.
\<close>

theorem C2_empty_chunk_list_counterexample:
  \<open>gatherChunks [] ''[name].[hash].js'' = Inr []\<close>
  by (simp add: gatherChunks_def)

text \<open>
  C2, amended. For every chunk list that is not empty and every template that contains
  \<^verbatim>\<open>[hash]\<close>, or \<^verbatim>\<open>[hash:N]\<close> with \<open>N\<close> a sequence of digits, building the chunk map throws
  the configuration error. The handler then hands the error to \<^verbatim>\<open>onError\<close>, and whatever
  the outcome of the steps before, its run has issued no upload when it returns.
\<close>

theorem C2_bare_hash_aborts_before_upload:
  assumes "chunks \<noteq> []"
    and "n = [] \<or> (\<exists>ds. n = CHR '':'' # ds \<and> ds \<noteq> [] \<and> list_all is_digit ds)"
  shows \<open>gatherChunks chunks (a @ ''[hash'' @ n @ '']'' @ b) = Inl ConfigError
    \<and> done_handler (Inr ()) (Inr assets) chunks (a @ ''[hash'' @ n @ '']'' @ b) phases r
        = r\<lparr> errors := errors r @ [ConfigError] \<rparr>
    \<and> uploads (done_handler waitFor manualAssets chunks (a @ ''[hash'' @ n @ '']'' @ b) phases r)
        = uploads r\<close>
proof -
  let ?tpl = \<open>a @ ''[hash'' @ n @ '']'' @ b\<close>
  from assms(1) obtain c cs where "chunks = c # cs" by (cases chunks) auto
  with test_hash[OF assms(2), of a b]
  have g: "gatherChunks chunks ?tpl = Inl ConfigError"
    by (simp add: gatherChunks_def)
  then have "done_handler (Inr ()) (Inr assets) chunks ?tpl phases r = r\<lparr> errors := errors r @ [ConfigError] \<rparr>"
    by (simp add: done_handler_def catch_def)
  moreover from g have "uploads (done_handler waitFor manualAssets chunks ?tpl phases r) = uploads r"
    by (simp add: done_handler_def catch_def split: sum.splits)
  ultimately show ?thesis using g by blast
qed

theorem C2_bare_hash_aborts_before_upload_witness:
  \<open>gatherChunks [app_chunk] ''[name].[hash:8].js'' = Inl ConfigError
   \<and> done_handler (Inr ()) (Inr ()) [app_chunk] ''[name].[hash:8].js'' upload_all
        \<lparr>uploads = [], errors = [], finished = False\<rparr>
      = \<lparr>uploads = [], errors = [ConfigError], finished = False\<rparr>\<close>
  using C2_bare_hash_aborts_before_upload[of "[app_chunk]" "'':8''" "''[name].''" "''.js''" "()" upload_all
      "\<lparr>uploads = [], errors = [], finished = False\<rparr>"]
  by (simp add: is_digit_def)

text \<open>
  C4, as stated, fails: with two pairs the transform runs twice, the second time on the
  content that the first pair has left, and with no pair it does not run at all.
\<close>

theorem C4_transform_once_counterexample:
  \<open>map_sum id (\<lambda>(w', ret, calls). (ret, calls))
     (simpleReplace posix ''/src/note.html'' None (Some mark) None
        [(''/dist/a.png'', ''A''), (''/dist/b.png'', ''B'')] note_world)
   = Inr (''x!!'', [(''x'', ''/src/note.html''), (''x!'', ''/src/note.html'')])
   \<and> map_sum id (\<lambda>(w', ret, calls). (ret, calls))
     (simpleReplace posix ''/src/note.html'' None (Some mark) None [] note_world)
   = Inr (''x'', [])\<close>
  by (simp add: simpleReplace_def read_file_def note_world_def posix_a posix_b localPath_defs mark_def match_defs pairReplacer_def)

text \<open>
  C4, amended. The transform is applied once for each pair, to the content as rewritten so
  far and just before that pair's substitution: a rewrite that returns has called it as
  many times as there are pairs, the \<open>i\<close>-th call with the content that the first \<open>i\<close> pairs
  have produced, and the content it returns is the one that all pairs have produced.
\<close>

theorem C4_transform_runs_once_per_pair:
  assumes "simpleReplace pf srcPath distPath' (Some f) copyWhenUntouched' pairs w = Inr (w', ret, calls)"
  shows "length calls = length pairs
    \<and> (\<exists>srcFile. read_file w srcPath = Inr srcFile
          \<and> calls = map (\<lambda>i. (apply_pairs pf f srcPath (take i pairs) srcFile, srcPath)) [0..<length pairs]
          \<and> ret = apply_pairs pf f srcPath pairs srcFile)"
  using simpleReplace_result[OF assms] by auto

theorem C4_transform_runs_once_per_pair_witness:
  \<open>length [(''x'', ''/src/note.html''), (''x!'', ''/src/note.html'')]
     = length [(''/dist/a.png'', ''A''), (''/dist/b.png'', ''B'')]
   \<and> apply_pairs posix mark ''/src/note.html''
         [(''/dist/a.png'', ''A''), (''/dist/b.png'', ''B'')] ''x'' = ''x!!''\<close>
proof -
  have run: \<open>simpleReplace posix ''/src/note.html'' None (Some mark) None
        [(''/dist/a.png'', ''A''), (''/dist/b.png'', ''B'')] note_world
      = Inr (write_file ''/src/note.html'' ''x!!'' note_world, ''x!!'',
             [(''x'', ''/src/note.html''), (''x!'', ''/src/note.html'')])\<close>
    by (simp add: simpleReplace_def read_file_def existsSync_def note_world_def posix_a posix_b
        localPath_defs mark_def match_defs pairReplacer_def)
  from C4_transform_runs_once_per_pair[OF run] obtain srcFile
    where src: \<open>read_file note_world ''/src/note.html'' = Inr srcFile\<close>
      and ret: \<open>''x!!'' = apply_pairs posix mark ''/src/note.html''
                  [(''/dist/a.png'', ''A''), (''/dist/b.png'', ''B'')] srcFile\<close>
    by blast
  from src have \<open>srcFile = ''x''\<close>
    by (simp add: read_file_def note_world_def)
  with ret show ?thesis by simp
qed

text \<open>
  C7, as stated, fails: of the two ids of the script below only \<^verbatim>\<open>0\<close> resolves to a known
  stylesheet, and the statement is rewritten to a map that lists \<^verbatim>\<open>0\<close> alone.
\<close>

theorem C7_partial_map_counterexample:
  \<open>findIndex (\<lambda>key. contains key ''css/1.css'') (map fst [(''/dist/css/0.css'', ''https://cdn/0.css'')])
     = None
   \<and> updateCssLoad css_engine [''/dist/entry.js''] [(''/dist/css/0.css'', ''https://cdn/0.css'')]
       css_world
     = Inr (write_file ''/dist/entry.js''
              (''var cssChunks = {"0":1,"1":1};'' @ [LF] @
               ''var href = {"0":"https://cdn/0.css"}[chunkId];'') css_world)\<close>
proof -
  have \<open>findIndex (\<lambda>key. contains key ''css/1.css'')
          (map fst [(''/dist/css/0.css'', ''https://cdn/0.css'')]) = None\<close>
    by simp
  moreover have \<open>updateCssLoad css_engine [''/dist/entry.js'']
       [(''/dist/css/0.css'', ''https://cdn/0.css'')] css_world
     = Inr (write_file ''/dist/entry.js''
              (''var cssChunks = {"0":1,"1":1};'' @ [LF] @
               ''var href = {"0":"https://cdn/0.css"}[chunkId];'') css_world)\<close>
    by (simp add: css_defs css_world_def css_engine_def match_defs)
  ultimately show ?thesis by blast
qed

text \<open>
  C7, amended. The keys of the map that is written are exactly the ids whose href occurs
  in the local path of a known stylesheet. The statement is left as it is when no id
  resolves; when at least one id resolves it is rewritten to the map of the resolved ids,
  whether or not the other ids resolve.
\<close>

theorem C7_untouched_iff_no_id_resolves:
  assumes "run (fnBody map' hrefMatch) = Inr hrefArr"
  shows "set (map fst (cssChunkIdCdnMap cssMap hrefArr []))
         = {chunkId. \<exists>href. (chunkId, href) \<in> set hrefArr \<and>
                            list_ex (\<lambda>key. contains key href) (map fst cssMap)}
    \<and> cssHrefReplacer run cssMap map' hrefMatch
       = Inr (if list_all (\<lambda>(chunkId, href). \<not> list_ex (\<lambda>key. contains key href) (map fst cssMap))
                   hrefArr
              then hrefMatch
              else ''var href = '' @ JSON_stringify (cssChunkIdCdnMap cssMap hrefArr [])
                   @ ''[chunkId];'')"
proof -
  have keys: "fst ` set (cssChunkIdCdnMap cssMap hrefArr []) = resolved_ids cssMap hrefArr"
    using cssChunkIdCdnMap_keys[of cssMap hrefArr "[]"] by simp
  have "(cssChunkIdCdnMap cssMap hrefArr [] = []) = (fst ` set (cssChunkIdCdnMap cssMap hrefArr []) = {})"
    by simp
  also have "\<dots> = list_all (\<lambda>(chunkId, href). \<not> list_ex (\<lambda>key. contains key href) (map fst cssMap)) hrefArr"
    unfolding keys by (auto simp: list_all_iff resolved_ids_def)
  finally show ?thesis using assms keys
    by (simp add: cssHrefReplacer_def Let_def resolved_ids_def)
qed

theorem C7_untouched_iff_no_id_resolves_witness:
  \<open>cssHrefReplacer css_engine [(''/dist/css/0.css'', ''https://cdn/0.css'')]
     ''{"0":1,"1":1}'' ''var href = "css/" + chunkId + ".css";''
   = Inr ''var href = {"0":"https://cdn/0.css"}[chunkId];''\<close>
proof -
  have run: \<open>css_engine (fnBody ''{"0":1,"1":1}'' ''var href = "css/" + chunkId + ".css";'')
    = Inr [(''0'', ''css/0.css''), (''1'', ''css/1.css'')]\<close>
    by (simp add: css_engine_def)
  from C7_untouched_iff_no_id_resolves[of css_engine _ _ _ "[(''/dist/css/0.css'', ''https://cdn/0.css'')]", OF run]
  show ?thesis
    by (simp add: JSON_stringify_def json_quote_def json_char_def obj_set_def)
qed




text \<open>
  C9, as stated, fails in its second half: the script below holds the statement
  \<^verbatim>\<open>__webpack_require__.p = "/x/";\<close>, but the statement lies between the start of a dispatch
  expression and the next \<^verbatim>\<open>.js"\<close>, so the chunk-table patch replaces it together with the
  expression, and the script that is written holds no assignment of the empty string.
\<close>

theorem C9_swallowed_assignment_counterexample:
  \<open>contains ''__webpack_require__.p + a[b] + c; __webpack_require__.p = "/x/"; d = ".js";''
      ''__webpack_require__.p = "/x/";''
   \<and> updateScriptSrc [''/dist/main.js''] [(''1'', ''https://cdn/chunk1.js'')] swallow_world
     = Inr (write_file ''/dist/main.js'' ''{"1":"https://cdn/chunk1.js"}[b];'' swallow_world)
   \<and> \<not> contains ''{"1":"https://cdn/chunk1.js"}[b];'' ''__webpack_require__.p = "";''\<close>
proof -
  have \<open>contains ''__webpack_require__.p + a[b] + c; __webpack_require__.p = "/x/"; d = ".js";''
      ''__webpack_require__.p = "/x/";''\<close>
    by simp
  moreover have \<open>updateScriptSrc [''/dist/main.js''] [(''1'', ''https://cdn/chunk1.js'')] swallow_world
     = Inr (write_file ''/dist/main.js'' ''{"1":"https://cdn/chunk1.js"}[b];'' swallow_world)\<close>
    by (simp add: world_defs swallow_world_def match_defs)
  moreover have \<open>\<not> contains ''{"1":"https://cdn/chunk1.js"}[b];'' ''__webpack_require__.p = "";''\<close>
    by simp
  ultimately show ?thesis by blast
qed

text \<open>
  C9, amended. With an empty map nothing is read and nothing is written. With a map that
  is not empty, take a script that has a public-path assignment and whose text, after the
  chunk-table patch, is \<open>a @ stmt @ b\<close>, where \<open>stmt\<close> is a statement
  \<^verbatim>\<open>__webpack_require__.p = <expr>;\<close> (at most one blank before the \<^verbatim>\<open>=\<close>, an expression that
  is not empty and holds no \<^verbatim>\<open>;\<close>) and the pattern has no match that starts in \<open>a\<close>. Then the
  script is written back with \<open>stmt\<close> replaced by \<^verbatim>\<open>__webpack_require__.p = "";\<close>, the text
  \<open>a\<close> before it unchanged and the text \<open>b\<close> after it rewritten in the same way; the
  remaining scripts are then patched in turn.
\<close>

theorem C9_empty_map_untouched_public_path_emptied:
  \<open>updateScriptSrc files0 [] w0 = Inr w0
   \<and> (chunkCdnMap \<noteq> [] \<and> files w file' = Some content \<and> lastIndex w = 0
      \<and> test PUBLIC_PATH_MATCH content
      \<and> (if test getScriptRegExp content
          then replace_g getScriptRegExp (subst 1 (srcAssignStr chunkCdnMap)) [] content
          else content) = a @ stmt @ b
      \<and> stmt = ''__webpack_require__.p'' @ s1 @ CHR ''='' # e @ '';''
      \<and> (s1 = [] \<or> (\<exists>c. s1 = [c] \<and> is_space c))
      \<and> e \<noteq> [] \<and> CHR '';'' \<notin> set e
      \<and> no_match_in PUBLIC_PATH_MATCH a (stmt @ b)
      \<longrightarrow> updateScriptSrc (file' # files') chunkCdnMap w
          = updateScriptSrc files' chunkCdnMap
              (write_file file'
                 (a @ ''__webpack_require__.p = "";'' @
                  replace_g PUBLIC_PATH_MATCH (subst 1 ''__webpack_require__.p = "";'')
                    (a @ stmt) b) w))\<close>
proof (intro conjI impI)
  show "updateScriptSrc files0 [] w0 = Inr w0"
    by (simp add: updateScriptSrc_def)
next
  assume A: \<open>chunkCdnMap \<noteq> [] \<and> files w file' = Some content \<and> lastIndex w = 0
      \<and> test PUBLIC_PATH_MATCH content
      \<and> (if test getScriptRegExp content
          then replace_g getScriptRegExp (subst 1 (srcAssignStr chunkCdnMap)) [] content
          else content) = a @ stmt @ b
      \<and> stmt = ''__webpack_require__.p'' @ s1 @ CHR ''='' # e @ '';''
      \<and> (s1 = [] \<or> (\<exists>c. s1 = [c] \<and> is_space c))
      \<and> e \<noteq> [] \<and> CHR '';'' \<notin> set e
      \<and> no_match_in PUBLIC_PATH_MATCH a (stmt @ b)\<close>
note ne = A[THEN conjunct1]
  note r0 = A[THEN conjunct2]
  note f = r0[THEN conjunct1]
  note r1 = r0[THEN conjunct2]
  note li = r1[THEN conjunct1]
  note r2 = r1[THEN conjunct2]
  note has = r2[THEN conjunct1]
  note r3 = r2[THEN conjunct2]
  note patched = r3[THEN conjunct1]
  note r4 = r3[THEN conjunct2]
  note stmt = r4[THEN conjunct1]
  note r5 = r4[THEN conjunct2]
  note s1 = r5[THEN conjunct1]
  note r6 = r5[THEN conjunct2]
  note e1 = r6[THEN conjunct1]
  note r7 = r6[THEN conjunct2]
  note e2 = r7[THEN conjunct1]
  note r8 = r7[THEN conjunct2]
  note gap = r8
  have \<open>updateScript_file chunkCdnMap file' w
     = Inr (write_file file'
                 (a @ ''__webpack_require__.p = "";'' @
                  replace_g PUBLIC_PATH_MATCH (subst 1 ''__webpack_require__.p = "";'')
                    (a @ stmt) b) w)\<close>
    by (rule updateScript_file_public_path[OF f li has patched stmt s1 e1 e2 gap])
  with ne show \<open>updateScriptSrc (file' # files') chunkCdnMap w
          = updateScriptSrc files' chunkCdnMap
              (write_file file'
                 (a @ ''__webpack_require__.p = "";'' @
                  replace_g PUBLIC_PATH_MATCH (subst 1 ''__webpack_require__.p = "";'')
                    (a @ stmt) b) w)\<close>
    by (simp add: updateScriptSrc_def)
qed

theorem C9_empty_map_untouched_public_path_emptied_witness:
  \<open>updateScriptSrc [''/dist/main.js''] [(''1'', ''https://cdn/chunk1.js'')] bootstrap_world
   = Inr (write_file ''/dist/main.js''
            ''x = {"1":"https://cdn/chunk1.js"}[chunkId]; __webpack_require__.p = ""; d = 1;''
            bootstrap_world)\<close>
proof -
  let ?content = \<open>''x = __webpack_require__.p + "" + ({}[chunkId]||chunkId) + ".js"; __webpack_require__.p = "/x/"; d = 1;''\<close>
  let ?m = \<open>[(''1'', ''https://cdn/chunk1.js'')]\<close>
  let ?a = \<open>''x = {"1":"https://cdn/chunk1.js"}[chunkId]; ''\<close>
  let ?stmt = \<open>''__webpack_require__.p = "/x/";''\<close>
  let ?b = \<open>'' d = 1;''\<close>
  have h1: "?m \<noteq> []" by simp
  have h2: "files bootstrap_world ''/dist/main.js'' = Some ?content"
    by (simp add: bootstrap_world_def)
  have h3: "lastIndex bootstrap_world = 0" by (simp add: bootstrap_world_def)
  have h4: "test PUBLIC_PATH_MATCH ?content"
    by (simp add: PUBLIC_PATH_MATCH_def match_defs)
  have h5: "(if test getScriptRegExp ?content
          then replace_g getScriptRegExp (subst 1 (srcAssignStr ?m)) [] ?content
          else ?content) = ?a @ ?stmt @ ?b"
    by (simp add: world_defs match_defs)
  have h6: \<open>?stmt = ''__webpack_require__.p'' @ '' '' @ CHR ''='' # '' "/x/"'' @ '';''\<close> by simp
  have h7: \<open>'' '' = [] \<or> (\<exists>c. '' '' = [c] \<and> is_space c)\<close> by (simp add: is_space_def)
  have h8: \<open>'' "/x/"'' \<noteq> []\<close> by simp
  have h9: \<open>CHR '';'' \<notin> set '' "/x/"''\<close> by simp
  have h10: "no_match_in PUBLIC_PATH_MATCH ?a (?stmt @ ?b)"
    by (simp add: PUBLIC_PATH_MATCH_def match_defs)
  have rest: \<open>replace_g PUBLIC_PATH_MATCH (subst 1 ''__webpack_require__.p = "";'') (?a @ ?stmt) ?b = ?b\<close>
    by (simp add: PUBLIC_PATH_MATCH_def match_defs)
  note A = conjI[OF h1 conjI[OF h2 conjI[OF h3 conjI[OF h4 conjI[OF h5 conjI[OF h6 conjI[OF h7 conjI[OF h8 conjI[OF h9 h10]]]]]]]]]
  from C9_empty_map_untouched_public_path_emptied[of "[]" bootstrap_world ?m bootstrap_world "''/dist/main.js''" ?content ?a ?stmt ?b
      "'' ''" \<open>'' "/x/"''\<close> "[]", THEN conjunct2, THEN mp, OF A]
  show ?thesis
    by (simp only: rest) (simp add: updateScriptSrc_def)
qed




end
